theory Spec2Isabelle
  imports Main "HOL-Library.AList"
begin

section \<open>Python values and the exceptions the handlers can raise\<close>

text \<open>
  The store keeps JSON-like documents and the service payloads are JSON-like too: every
  value is None, a bool, an int, a float, a str, a list or a dict with string keys. A
  dict is an association list in insertion order; \<open>d[k] = v\<close> is \<open>AList.update\<close>, which
  overwrites in place or appends. Values are trees: two fields never share one list
  object. A character of a str is a code point below 256.
\<close>

datatype error = TypeError | ValueError | KeyError | IndexError | AttributeError | OverflowError

text \<open>
  A float is a binary64 value: \<open>Finite s m e\<close> is \<open>(-1)^s * m * 2^e\<close>, so that both zeros
  are there, \<open>Infinite s\<close> is the infinity of sign \<open>s\<close>.
\<close>

datatype pyfloat = Finite bool nat int | Infinite bool | NaN

datatype pyval =
    PNone
  | PBool bool
  | PInt int
  | PFloat pyfloat
  | PStr string
  | PList "pyval list"
  | PDict "(string \<times> pyval) list"

type_synonym pydict = "(string \<times> pyval) list"
type_synonym med = "(string \<times> pyval) list"

text \<open>\<open>d.get(k, default)\<close>\<close>

definition dget :: "pydict \<Rightarrow> string \<Rightarrow> pyval \<Rightarrow> pyval" where
  "dget d k dflt = (case map_of d k of None \<Rightarrow> dflt | Some v \<Rightarrow> v)"

text \<open>\<open>d[k]\<close>, which raises KeyError on a missing key\<close>

definition dlookup :: "pydict \<Rightarrow> string \<Rightarrow> error + pyval" where
  "dlookup d k = (case map_of d k of None \<Rightarrow> Inl KeyError | Some v \<Rightarrow> Inr v)"

text \<open>\<open>d[k] = v\<close>\<close>

definition dset :: "pydict \<Rightarrow> string \<Rightarrow> pyval \<Rightarrow> pydict" where
  "dset d k v = AList.update k v d"

text \<open>Truth value of an object, as \<open>if x\<close>, \<open>x or y\<close> and \<open>not x\<close> take it.\<close>

fun truthy :: "pyval \<Rightarrow> bool" where
  "truthy PNone = False"
| "truthy (PBool b) = b"
| "truthy (PInt i) = (i \<noteq> 0)"
| "truthy (PFloat f) = (case f of Finite s m e \<Rightarrow> m \<noteq> 0 | _ \<Rightarrow> True)"
| "truthy (PStr s) = (s \<noteq> [])"
| "truthy (PList xs) = (xs \<noteq> [])"
| "truthy (PDict d) = (d \<noteq> [])"

text \<open>\<open>len(x)\<close>: defined on str, list and dict; TypeError on the rest.\<close>

fun py_len :: "pyval \<Rightarrow> error + nat" where
  "py_len (PStr s) = Inr (length s)"
| "py_len (PList xs) = Inr (length xs)"
| "py_len (PDict d) = Inr (length d)"
| "py_len _ = Inl TypeError"

subsection \<open>Float arithmetic\<close>

definition signed :: "bool \<Rightarrow> nat \<Rightarrow> int" where
  "signed s m = (if s then - int m else int m)"

text \<open>The number of binary digits of \<open>n\<close>.\<close>

fun bitlen :: "nat \<Rightarrow> nat" where
  "bitlen n = (if n = 0 then 0 else Suc (bitlen (n div 2)))"

text \<open>
  The binary64 value nearest to \<open>(-1)^s * m * 2^e\<close>, ties to the even significand: 53
  binary digits are kept, fewer below \<open>2^-1022\<close>, and a result of \<open>2^1024\<close> or more is
  an infinity.
\<close>

definition round53 :: "bool \<Rightarrow> nat \<Rightarrow> int \<Rightarrow> pyfloat" where
  "round53 s m e =
     (let E = max (int (bitlen m) + e - 53) (- 1074)
      in if E \<le> e
         then (if int (bitlen m) + e > 1024 then Infinite s else Finite s m e)
         else (let sh = nat (E - e);
                   q = m div 2 ^ sh;
                   r = m mod 2 ^ sh;
                   half = 2 ^ (sh - 1);
                   q' = (if half < r \<or> (r = half \<and> odd q) then q + 1 else q)
               in if int (bitlen q') + E > 1024 then Infinite s else Finite s q' E))"

text \<open>\<open>float(n)\<close> for an int, as mixed arithmetic converts it: too large an int raises.\<close>

definition float_of_int :: "int \<Rightarrow> error + pyfloat" where
  "float_of_int n =
     (case round53 (n < 0) (nat \<bar>n\<bar>) 0 of
        Infinite s \<Rightarrow> Inl OverflowError
      | f \<Rightarrow> Inr f)"

fun fneg :: "pyfloat \<Rightarrow> pyfloat" where
  "fneg (Finite s m e) = Finite (\<not> s) m e"
| "fneg (Infinite s) = Infinite (\<not> s)"
| "fneg NaN = NaN"

text \<open>
  The sum of two floats. An exact sum of zero is \<open>+0.0\<close>, except that
  \<open>(-0.0) + (-0.0)\<close> is \<open>-0.0\<close>.
\<close>

fun fadd :: "pyfloat \<Rightarrow> pyfloat \<Rightarrow> pyfloat" where
  "fadd (Finite s1 m1 e1) (Finite s2 m2 e2) =
     (let e = min e1 e2;
          a = signed s1 m1 * 2 ^ nat (e1 - e) + signed s2 m2 * 2 ^ nat (e2 - e)
      in if a = 0 then Finite (m1 = 0 \<and> m2 = 0 \<and> s1 \<and> s2) 0 0
         else round53 (a < 0) (nat \<bar>a\<bar>) e)"
| "fadd NaN y = NaN"
| "fadd x NaN = NaN"
| "fadd (Infinite s1) (Infinite s2) = (if s1 = s2 then Infinite s1 else NaN)"
| "fadd (Infinite s1) y = Infinite s1"
| "fadd x (Infinite s2) = Infinite s2"

text \<open>Comparing a float with an int is exact.\<close>

fun float_less_int :: "pyfloat \<Rightarrow> int \<Rightarrow> bool" where
  "float_less_int (Finite s m e) n =
     (if 0 \<le> e then signed s m * 2 ^ nat e < n else signed s m < n * 2 ^ nat (- e))"
| "float_less_int (Infinite s) n = s"
| "float_less_int NaN n = False"

fun int_less_float :: "int \<Rightarrow> pyfloat \<Rightarrow> bool" where
  "int_less_float n (Finite s m e) =
     (if 0 \<le> e then n < signed s m * 2 ^ nat e else n * 2 ^ nat (- e) < signed s m)"
| "int_less_float n (Infinite s) = (\<not> s)"
| "int_less_float n NaN = False"

text \<open>\<open>int(x)\<close> for a float cuts the fraction off; an infinity and a NaN have no int.\<close>

fun float_trunc :: "pyfloat \<Rightarrow> error + int" where
  "float_trunc (Finite s m e) =
     Inr (signed s (if 0 \<le> e then m * 2 ^ nat e else m div 2 ^ nat (- e)))"
| "float_trunc (Infinite s) = Inl OverflowError"
| "float_trunc NaN = Inl ValueError"

subsection \<open>Arithmetic and comparison of objects\<close>

text \<open>The value of an int operand: an int, or a bool as 0/1.\<close>

fun num_of :: "pyval \<Rightarrow> int option" where
  "num_of (PInt i) = Some i"
| "num_of (PBool b) = Some (if b then 1 else 0)"
| "num_of _ = None"

text \<open>
  An operand of mixed arithmetic as a float: a float is itself, an int is converted,
  anything else is no number.
\<close>

fun as_float :: "pyval \<Rightarrow> error + pyfloat" where
  "as_float (PFloat f) = Inr f"
| "as_float (PInt i) = float_of_int i"
| "as_float (PBool b) = float_of_int (if b then 1 else 0)"
| "as_float _ = Inl TypeError"

text \<open>\<open>x + n\<close> with \<open>n\<close> an int: str, list, dict and None operands raise TypeError.\<close>

definition py_add_int :: "pyval \<Rightarrow> int \<Rightarrow> error + pyval" where
  "py_add_int x n =
     (case num_of x of
        Some i \<Rightarrow> Inr (PInt (i + n))
      | None \<Rightarrow>
          (case x of
             PFloat f \<Rightarrow> (case float_of_int n of Inl e \<Rightarrow> Inl e | Inr g \<Rightarrow> Inr (PFloat (fadd f g)))
           | _ \<Rightarrow> Inl TypeError))"

text \<open>\<open>x - y\<close>: int arithmetic for two ints, float arithmetic when one is a float.\<close>

definition py_sub :: "pyval \<Rightarrow> pyval \<Rightarrow> error + pyval" where
  "py_sub x y =
     (case (num_of x, num_of y) of
        (Some i, Some j) \<Rightarrow> Inr (PInt (i - j))
      | _ \<Rightarrow>
          (case as_float x of
             Inl e \<Rightarrow> (case as_float y of Inl TypeError \<Rightarrow> Inl TypeError | _ \<Rightarrow> Inl e)
           | Inr f \<Rightarrow>
               (case as_float y of
                  Inl e \<Rightarrow> Inl e
                | Inr g \<Rightarrow> Inr (PFloat (fadd f (fneg g))))))"

text \<open>\<open>x > n\<close>, \<open>x >= n\<close> and \<open>x < n\<close> with \<open>n\<close> an int\<close>

definition py_gt_int :: "pyval \<Rightarrow> int \<Rightarrow> error + bool" where
  "py_gt_int x n =
     (case num_of x of
        Some i \<Rightarrow> Inr (i > n)
      | None \<Rightarrow> (case x of PFloat f \<Rightarrow> Inr (int_less_float n f) | _ \<Rightarrow> Inl TypeError))"

definition py_ge_int :: "pyval \<Rightarrow> int \<Rightarrow> error + bool" where
  "py_ge_int x n =
     (case num_of x of
        Some i \<Rightarrow> Inr (i \<ge> n)
      | None \<Rightarrow>
          (case x of
             PFloat f \<Rightarrow> Inr (f \<noteq> NaN \<and> \<not> float_less_int f n)
           | _ \<Rightarrow> Inl TypeError))"

definition py_lt_int :: "pyval \<Rightarrow> int \<Rightarrow> error + bool" where
  "py_lt_int x n =
     (case num_of x of
        Some i \<Rightarrow> Inr (i < n)
      | None \<Rightarrow> (case x of PFloat f \<Rightarrow> Inr (float_less_int f n) | _ \<Rightarrow> Inl TypeError))"

text \<open>
  \<open>max(0, x)\<close> and \<open>min(99999, x)\<close> for a number \<open>x\<close>: the first argument stays unless the
  second is strictly beyond it.
\<close>

definition py_max0 :: "pyval \<Rightarrow> pyval" where
  "py_max0 x = (case py_gt_int x 0 of Inr True \<Rightarrow> x | _ \<Rightarrow> PInt 0)"

definition py_min_cap :: "pyval \<Rightarrow> pyval" where
  "py_min_cap x = (case py_lt_int x 99999 of Inr True \<Rightarrow> x | _ \<Rightarrow> PInt 99999)"

subsection \<open>The \<open>int()\<close> coercion\<close>

text \<open>
  What \<open>int()\<close> strips from the ends of a str: the six ASCII blanks, and the two blanks
  above them, next line and no-break space.
\<close>

definition is_space :: "char \<Rightarrow> bool" where
  "is_space c = (of_char c \<in> {9, 10, 11, 12, 13, 32, 133, 160 :: nat})"

definition is_digit :: "char \<Rightarrow> bool" where
  "is_digit c = (48 \<le> (of_char c :: nat) \<and> (of_char c :: nat) \<le> 57)"

definition digit_val :: "char \<Rightarrow> int" where
  "digit_val c = int (of_char c) - 48"

definition strip :: "string \<Rightarrow> string" where
  "strip s = rev (dropWhile is_space (rev (dropWhile is_space s)))"

text \<open>
  Decimal digits, a single underscore allowed between two digits. The flag says that
  the previous character was a digit.
\<close>

fun parse_digits :: "int \<Rightarrow> bool \<Rightarrow> string \<Rightarrow> int option" where
  "parse_digits acc after_digit [] = (if after_digit then Some acc else None)"
| "parse_digits acc after_digit (c # cs) =
     (if is_digit c then parse_digits (10 * acc + digit_val c) True cs
      else if c = CHR ''_'' \<and> after_digit then parse_digits acc False cs
      else None)"

text \<open>A literal of more than 4300 digits is refused, as CPython does by default.\<close>

definition parse_int :: "string \<Rightarrow> int option" where
  "parse_int s =
     (if length (filter is_digit s) > 4300 then None
      else case strip s of
             c # cs \<Rightarrow>
               (if c = CHR ''-'' then map_option uminus (parse_digits 0 False cs)
                else if c = CHR ''+'' then parse_digits 0 False cs
                else parse_digits 0 False (c # cs))
           | [] \<Rightarrow> None)"

text \<open>
  \<open>int(x)\<close>: an int is itself, a bool is 0 or 1, a float is cut to its integral part
  (OverflowError for an infinity, ValueError for a NaN), a str is parsed (ValueError when
  it is not a decimal literal), None, list and dict raise TypeError.
\<close>

fun py_int :: "pyval \<Rightarrow> error + int" where
  "py_int (PInt i) = Inr i"
| "py_int (PBool b) = Inr (if b then 1 else 0)"
| "py_int (PFloat f) = float_trunc f"
| "py_int (PStr s) = (case parse_int s of None \<Rightarrow> Inl ValueError | Some i \<Rightarrow> Inr i)"
| "py_int _ = Inl TypeError"

subsection \<open>Decimal rendering\<close>

definition digit_char :: "nat \<Rightarrow> char" where
  "digit_char d = ''0123456789'' ! (d mod 10)"

fun show_nat_aux :: "nat \<Rightarrow> nat \<Rightarrow> string \<Rightarrow> string" where
  "show_nat_aux 0 n acc = acc"
| "show_nat_aux (Suc fuel) n acc =
     (if n < 10 then digit_char n # acc
      else show_nat_aux fuel (n div 10) (digit_char n # acc))"

text \<open>\<open>str(n)\<close> for a natural number; \<open>n + 1\<close> steps are always enough.\<close>

definition show_nat :: "nat \<Rightarrow> string" where
  "show_nat n = show_nat_aux (Suc n) n []"

subsection \<open>Sequencing fallible steps\<close>

text \<open>A step that raises ends the computation with its exception.\<close>

definition ebind :: "error + 'a \<Rightarrow> ('a \<Rightarrow> error + 'b) \<Rightarrow> error + 'b" where
  "ebind r f = (case r of Inl e \<Rightarrow> Inl e | Inr x \<Rightarrow> f x)"

text \<open>
  A handler mutates its record in place, so an exception leaves behind whatever was
  assigned before it: \<open>Inl (e, m)\<close> is "raised \<open>e\<close> with the object in state \<open>m\<close>",
  \<open>Inr m\<close> is "returned with the object in state \<open>m\<close>".
\<close>

type_synonym 's outcome = "(error \<times> 's) + 's"

text \<open>Evaluate an expression while the object is in state \<open>m\<close>.\<close>

definition eval_in :: "'s \<Rightarrow> error + 'a \<Rightarrow> ('a \<Rightarrow> 's outcome) \<Rightarrow> 's outcome" where
  "eval_in m r f = (case r of Inl e \<Rightarrow> Inl (e, m) | Inr x \<Rightarrow> f x)"

text \<open>The state an outcome leaves behind, and the exception that escaped, if any.\<close>

definition state_of :: "'s outcome \<Rightarrow> 's" where
  "state_of r = (case r of Inl (e, s) \<Rightarrow> s | Inr s \<Rightarrow> s)"

definition raised :: "'s outcome \<Rightarrow> error option" where
  "raised r = (case r of Inl (e, s) \<Rightarrow> Some e | Inr s \<Rightarrow> None)"

section \<open>Calendar dates\<close>

text \<open>
  A date is its proleptic Gregorian ordinal, as \<open>date.toordinal()\<close> gives it: day 1 is
  0001-01-01 and day 3652059 is 9999-12-31, the last one a \<open>datetime\<close> can hold.
  \<open>datetime.now()\<close> is read from the host's clock; the handlers take its date as the
  parameter \<open>today\<close>.
\<close>

definition MAXORDINAL :: int where
  "MAXORDINAL = 3652059"

definition is_leap :: "int \<Rightarrow> bool" where
  "is_leap y = (y mod 4 = 0 \<and> (y mod 100 \<noteq> 0 \<or> y mod 400 = 0))"

definition month_lengths :: "bool \<Rightarrow> int list" where
  "month_lengths leap = [31, if leap then 29 else 28, 31, 30, 31, 30, 31, 31, 30, 31, 30, 31]"

text \<open>Month and day of the month of the \<open>r\<close>-th day (from 0) of a year.\<close>

fun month_day :: "int list \<Rightarrow> int \<Rightarrow> int \<Rightarrow> int \<times> int" where
  "month_day [] m r = (m, r + 1)"
| "month_day (l # ls) m r = (if r < l then (m, r + 1) else month_day ls (m + 1) (r - l))"

text \<open>Year, month and day of an ordinal: 400-, 100-, 4- and 1-year cycles.\<close>

definition ord2ymd :: "int \<Rightarrow> int \<times> int \<times> int" where
  "ord2ymd n =
     (let n0 = n - 1;
          n400 = n0 div 146097; r1 = n0 mod 146097;
          n100 = r1 div 36524; r2 = r1 mod 36524;
          n4 = r2 div 1461; r3 = r2 mod 1461;
          n1 = r3 div 365; r4 = r3 mod 365;
          year = 400 * n400 + 100 * n100 + 4 * n4 + n1 + 1
      in if n1 = 4 \<or> n100 = 4 then (year - 1, 12, 31)
         else (case month_day (month_lengths (is_leap year)) 1 r4 of
                 (m, d) \<Rightarrow> (year, m, d)))"

definition pad2 :: "int \<Rightarrow> string" where
  "pad2 n = [digit_char (nat n div 10), digit_char (nat n)]"

text \<open>
  \<open>strftime("%Y-%m-%d")\<close> of a year, month and day: the C library of the host prints the
  year as it is, without leading zeros, and the month and the day with two digits.
\<close>

definition render_ymd :: "int \<Rightarrow> int \<Rightarrow> int \<Rightarrow> string" where
  "render_ymd y m d = show_nat (nat y) @ ''-'' @ pad2 m @ ''-'' @ pad2 d"

definition strftime_ymd :: "int \<Rightarrow> string" where
  "strftime_ymd n = (case ord2ymd n of (y, m, d) \<Rightarrow> render_ymd y m d)"

text \<open>
  \<open>datetime.now() + timedelta(days=k)\<close>: OverflowError when the sum leaves the range of
  dates (a \<open>k\<close> beyond what a timedelta holds leaves it as well).
\<close>

definition add_days :: "int \<Rightarrow> int \<Rightarrow> error + int" where
  "add_days today k =
     (if 1 \<le> today + k \<and> today + k \<le> MAXORDINAL then Inr (today + k) else Inl OverflowError)"

section \<open>The refill estimate\<close>

definition days_left_of :: "int \<Rightarrow> int \<Rightarrow> int \<Rightarrow> int" where
  "days_left_of doses_available dose_per_time doses_per_day =
     (let daily_need = doses_per_day * dose_per_time
      in if daily_need > 0 then doses_available div daily_need else 0)"

text \<open>
  \<open>MedStore._recalc_next_refill_for_entry\<close>. The three coercions run in the source's
  order; Python's \<open>//\<close> on ints is floor division, which is what \<open>div\<close> on \<open>int\<close> is.
\<close>

definition recalc_next_refill_for_entry :: "int \<Rightarrow> med \<Rightarrow> error + med" where
  "recalc_next_refill_for_entry today med =
     ebind (py_int (dget med ''doses_available'' (PInt 0))) (\<lambda>doses_available.
     ebind (py_int (dget med ''dose'' (PInt 1))) (\<lambda>dose_per_time.
     ebind (py_int (dget med ''doses_per_day'' (PInt 1))) (\<lambda>doses_per_day.
     ebind (add_days today (days_left_of doses_available dose_per_time doses_per_day)) (\<lambda>d.
     Inr (dset med ''next_refill'' (PStr (strftime_ymd d)))))))"

section \<open>The store and its presentation entities\<close>

text \<open>
  \<open>MedStoreMedicationEntity\<close>: the attributes that the resync pass rewrites. The entity
  dict \<open>_med_entities\<close> is keyed by the indices that \<open>range\<close> and \<open>enumerate\<close> produce,
  which are never negative.
\<close>

record entity =
  ent_index :: nat
  attr_name :: string
  attr_unique_id :: string

type_synonym entities = "(nat \<times> entity) list"

record medstore =
  meds :: "med list"
  med_entities :: entities

text \<open>Run a handler's body on the record at position \<open>i\<close>, which it mutates in place.\<close>

definition on_med :: "nat \<Rightarrow> (med \<Rightarrow> med outcome) \<Rightarrow> medstore \<Rightarrow> medstore outcome" where
  "on_med i body s =
     (case body (meds s ! i) of
        Inl (e, m) \<Rightarrow> Inl (e, s\<lparr>meds := (meds s)[i := m]\<rparr>)
      | Inr m \<Rightarrow> Inr (s\<lparr>meds := (meds s)[i := m]\<rparr>))"

subsection \<open>Entity resync\<close>

text \<open>The first loop of \<open>_sync_med_entities\<close>: pop each removed index, collecting what was popped.\<close>

fun pop_removed :: "nat list \<Rightarrow> entities \<Rightarrow> entities \<times> entities" where
  "pop_removed [] es = ([], es)"
| "pop_removed (idx # idxs) es =
     (case map_of es idx of
        None \<Rightarrow> pop_removed idxs es
      | Some e \<Rightarrow>
          (case pop_removed idxs (AList.delete idx es) of
             (gone, es') \<Rightarrow> ((idx, e) # gone, es')))"

definition retag :: "string \<Rightarrow> nat \<Rightarrow> entity \<Rightarrow> entity" where
  "retag domain new_index e =
     e\<lparr>ent_index := new_index, attr_unique_id := domain @ ''_med_'' @ show_nat new_index\<rparr>"

text \<open>
  The second loop: \<open>enumerate(sorted(keys))\<close>. The keys come from the dict itself, so the
  lookup always finds its entity.
\<close>

fun reindex :: "string \<Rightarrow> entities \<Rightarrow> nat \<Rightarrow> nat list \<Rightarrow> entities" where
  "reindex domain es new_index [] = []"
| "reindex domain es new_index (old_index # rest) =
     (case map_of es old_index of
        None \<Rightarrow> reindex domain es (Suc new_index) rest
      | Some e \<Rightarrow> (new_index, retag domain new_index e) # reindex domain es (Suc new_index) rest)"

text \<open>
  \<open>MedStore._sync_med_entities\<close>, with the constant \<open>DOMAIN\<close> of \<open>const.py\<close> as a
  parameter. It returns the entities it asked the host to remove, in the order of the
  calls, and the store with the new entity dict.
\<close>

definition sync_med_entities :: "string \<Rightarrow> medstore \<Rightarrow> entities \<times> medstore" where
  "sync_med_entities domain s =
     (let current_indices = [0..<length (meds s)];
          existing_indices = remdups (map fst (med_entities s));
          removed = filter (\<lambda>k. k \<notin> set current_indices) existing_indices
      in case pop_removed (rev (sort removed)) (med_entities s) of
           (gone, es) \<Rightarrow>
             (gone, s\<lparr>med_entities := reindex domain es 0 (sort (map fst es))\<rparr>))"

section \<open>Service handlers\<close>

text \<open>
  A handler takes the payload \<open>call.data\<close> as a dict. Saving to the host's store and the
  dispatcher signal do not change the register and are left out.
\<close>

text \<open>What \<open>except (TypeError, ValueError)\<close> catches.\<close>

definition caught :: "error \<Rightarrow> bool" where
  "caught e = (e = TypeError \<or> e = ValueError)"

subsection \<open>add\<close>

text \<open>
  The dict display of \<open>add\<close>, evaluated entry by entry; \<open>n\<close> is \<open>len(self.data['meds'])\<close>.
  A default passed to \<open>get\<close> is evaluated before the lookup.
\<close>

definition build_med :: "nat \<Rightarrow> pydict \<Rightarrow> error + med" where
  "build_med n med_data =
     (let name = dget med_data ''name'' (PStr (''Med '' @ show_nat (n + 1)));
          timing = dget med_data ''timing'' (PList [])
      in
      ebind (py_int (dget med_data ''dose'' (PInt 1))) (\<lambda>dose.
      ebind (if truthy timing then py_len timing else Inr 1) (\<lambda>dflt.
      ebind (py_int (dget med_data ''doses_per_day'' (PInt (int dflt)))) (\<lambda>doses_per_day.
      ebind (py_int (dget med_data ''doses_available'' (PInt 0))) (\<lambda>doses_available.
      ebind (py_int (dget med_data ''refills_available'' (PInt 0))) (\<lambda>refills_available.
      ebind (py_int (dget med_data ''doses_per_refill'' (PInt 0))) (\<lambda>doses_per_refill.
      ebind (py_len timing) (\<lambda>len_timing.
      Inr [(''name'', name),
           (''strength'', dget med_data ''strength'' (PStr [])),
           (''dose'', PInt dose),
           (''doses_per_day'', PInt doses_per_day),
           (''timing'', timing),
           (''doses_available'', PInt doses_available),
           (''refills_available'', PInt refills_available),
           (''doses_per_refill'', PInt doses_per_refill),
           (''next_refill'', dget med_data ''next_refill'' (PStr [])),
           (''taken_count_per_dose'',
              dget med_data ''taken_count_per_dose''
                (PList (replicate (if len_timing = 0 then 1 else len_timing) (PInt 0)))),
           (''all_taken'', dget med_data ''all_taken'' (PBool False)),
           (''active'', dget med_data ''active'' (PBool True))]))))))))"

text \<open>\<open>MedStore.add\<close>. \<open>.get\<close> on a payload that is not a dict raises AttributeError.\<close>

definition add :: "int \<Rightarrow> pydict \<Rightarrow> medstore \<Rightarrow> medstore outcome" where
  "add today call s =
     (let v = dget call ''med_data'' PNone;
          med_data = (if truthy v then v else PDict [])
      in case med_data of
           PDict d \<Rightarrow>
             eval_in s (build_med (length (meds s)) d) (\<lambda>med.
             eval_in (s\<lparr>meds := meds s @ [med]\<rparr>) (recalc_next_refill_for_entry today med) (\<lambda>med'.
             Inr (s\<lparr>meds := meds s @ [med']\<rparr>)))
         | _ \<Rightarrow> Inl (AttributeError, s))"

subsection \<open>delete\<close>

definition delete :: "string \<Rightarrow> pydict \<Rightarrow> medstore \<Rightarrow> medstore outcome" where
  "delete domain call s =
     (let index = dget call ''index'' PNone
      in if index = PNone then Inr s
         else case py_int index of
                Inl e \<Rightarrow> (if caught e then Inr s else Inl (e, s))
              | Inr index \<Rightarrow>
                  if index < 0 \<or> index \<ge> int (length (meds s)) then Inr s
                  else Inr (snd (sync_med_entities domain
                         (s\<lparr>meds := take (nat index) (meds s) @ drop (Suc (nat index)) (meds s)\<rparr>))))"

subsection \<open>update\<close>

text \<open>
  \<open>MedStore.update\<close>. The built-in \<open>dict.update\<close> is the parameter \<open>dict_update\<close>: given
  the record and the argument it returns the merged record, or raises with what it had
  merged so far.
\<close>

definition update_med :: "(med \<Rightarrow> pyval \<Rightarrow> med outcome) \<Rightarrow> int \<Rightarrow> pyval \<Rightarrow> med \<Rightarrow> med outcome" where
  "update_med dict_update today updates med =
     (case dict_update med updates of
        Inl (e, m) \<Rightarrow> Inl (e, m)
      | Inr m \<Rightarrow> eval_in m (recalc_next_refill_for_entry today m) Inr)"

definition update ::
  "(med \<Rightarrow> pyval \<Rightarrow> med outcome) \<Rightarrow> int \<Rightarrow> pydict \<Rightarrow> medstore \<Rightarrow> medstore outcome" where
  "update dict_update today call s =
     (let index = dget call ''index'' PNone;
          u = dget call ''updates'' PNone;
          updates = (if truthy u then u else PDict [])
      in if index = PNone then Inr s
         else case py_int index of
                Inl e \<Rightarrow> (if caught e then Inr s else Inl (e, s))
              | Inr index \<Rightarrow>
                  if 0 \<le> index \<and> index < int (length (meds s))
                  then on_med (nat index) (update_med dict_update today updates) s
                  else Inr s)"

subsection \<open>toggle\_active\<close>

definition toggle_active :: "pydict \<Rightarrow> medstore \<Rightarrow> medstore outcome" where
  "toggle_active call s =
     (let index = dget call ''index'' PNone
      in if index = PNone then Inr s
         else case py_int index of
                Inl e \<Rightarrow> (if caught e then Inr s else Inl (e, s))
              | Inr index \<Rightarrow>
                  if 0 \<le> index \<and> index < int (length (meds s))
                  then on_med (nat index)
                         (\<lambda>med. Inr (dset med ''active''
                                  (PBool (\<not> truthy (dget med ''active'' (PBool True)))))) s
                  else Inr s)"

subsection \<open>add\_refill\<close>

text \<open>
  The body of \<open>add_refill\<close> on its record. In \<open>a + int(amount)\<close> the coercion runs before
  the addition.
\<close>

definition add_refill_med :: "int \<Rightarrow> pyval \<Rightarrow> med \<Rightarrow> med outcome" where
  "add_refill_med today amount med =
     eval_in med (py_int amount) (\<lambda>a.
     eval_in med (py_add_int (dget med ''doses_available'' (PInt 0)) a) (\<lambda>total.
     (let med1 = dset med ''doses_available'' total
      in eval_in med1 (py_gt_int (dget med1 ''refills_available'' (PInt 0)) 0) (\<lambda>has_refills.
         eval_in med1
           (if has_refills
            then ebind (py_sub (dget med1 ''refills_available'' (PInt 0)) (PInt 1)) (\<lambda>r.
                 Inr (dset med1 ''refills_available'' (py_max0 r)))
            else Inr med1) (\<lambda>med2.
         eval_in med2 (recalc_next_refill_for_entry today med2) Inr)))))"

definition add_refill :: "int \<Rightarrow> pydict \<Rightarrow> medstore \<Rightarrow> medstore outcome" where
  "add_refill today call s =
     (let index = dget call ''index'' PNone;
          amount = dget call ''amount'' (PInt 0)
      in if index = PNone then Inr s
         else case py_int index of
                Inl e \<Rightarrow> (if caught e then Inr s else Inl (e, s))
              | Inr index \<Rightarrow>
                  if 0 \<le> index \<and> index < int (length (meds s))
                  then on_med (nat index) (add_refill_med today amount) s
                  else Inr s)"

subsection \<open>take\_dose\<close>

text \<open>\<open>taken + [0] * k\<close>: only a list can be extended by a list.\<close>

fun pad_taken :: "pyval \<Rightarrow> nat \<Rightarrow> error + pyval" where
  "pad_taken (PList xs) k = Inr (PList (xs @ replicate k (PInt 0)))"
| "pad_taken _ k = Inl TypeError"

text \<open>
  \<open>taken[i] = min(99999, taken[i] + 1)\<close> for \<open>i \<ge> 0\<close>. Subscripting a str gives a str, which
  cannot be added to 1; subscripting a dict with string keys by an int raises KeyError.
\<close>

fun bump_taken :: "pyval \<Rightarrow> nat \<Rightarrow> error + pyval" where
  "bump_taken (PList xs) i =
     (if i < length xs
      then ebind (py_add_int (xs ! i) 1) (\<lambda>v. Inr (PList (xs[i := py_min_cap v])))
      else Inl IndexError)"
| "bump_taken (PStr s) i = (if i < length s then Inl TypeError else Inl IndexError)"
| "bump_taken (PDict d) i = Inl KeyError"
| "bump_taken _ i = Inl TypeError"

text \<open>\<open>all(c >= 1 for c in cs)\<close> stops at the first counter below 1.\<close>

fun all_ge1 :: "pyval list \<Rightarrow> error + bool" where
  "all_ge1 [] = Inr True"
| "all_ge1 (c # cs) = ebind (py_ge_int c 1) (\<lambda>b. if b then all_ge1 cs else Inr False)"

text \<open>Iterating a str gives strs and iterating a dict gives its keys, neither comparable to 1.\<close>

fun all_taken_of :: "pyval \<Rightarrow> error + bool" where
  "all_taken_of (PList cs) = all_ge1 cs"
| "all_taken_of (PStr s) = (if s = [] then Inr True else Inl TypeError)"
| "all_taken_of (PDict d) = (if d = [] then Inr True else Inl TypeError)"
| "all_taken_of _ = Inl TypeError"

text \<open>
  The local \<open>taken\<close> of \<open>take_dose\<close> is the record's own list when the key is there,
  and a fresh list of zeros otherwise. It travels with the flag \<open>stored\<close>, which says that
  \<open>taken\<close> is the object the record holds, so that an item assignment reaches the record.
\<close>

text \<open>
  "Ensure taken list is the correct length": a shorter \<open>taken\<close> is replaced by a padded
  copy, which is assigned to the record.
\<close>

definition ensure_length :: "nat \<Rightarrow> pyval \<Rightarrow> bool \<Rightarrow> med \<Rightarrow> error + (pyval \<times> med \<times> bool)" where
  "ensure_length len_timing taken stored med =
     ebind (py_len taken) (\<lambda>len_taken.
     if len_taken < len_timing
     then ebind (pad_taken taken (len_timing - len_taken)) (\<lambda>taken'.
          Inr (taken', dset med ''taken_count_per_dose'' taken', True))
     else Inr (taken, med, stored))"

text \<open>\<open>taken[dose_index] = min(99999, taken[dose_index] + 1)\<close>\<close>

definition count_dose :: "nat \<Rightarrow> pyval \<Rightarrow> bool \<Rightarrow> med \<Rightarrow> error + med" where
  "count_dose i taken stored med =
     ebind (bump_taken taken i) (\<lambda>taken'.
     Inr (if stored then dset med ''taken_count_per_dose'' taken' else med))"

text \<open>
  The rest of the body: the inventory, \<open>all_taken\<close> (read from the record, not from the
  local \<open>taken\<close>) and the estimate.
\<close>

definition settle_dose :: "int \<Rightarrow> med \<Rightarrow> med outcome" where
  "settle_dose today med =
     eval_in med
       (py_sub (dget med ''doses_available'' (PInt 0)) (dget med ''dose'' (PInt 1))) (\<lambda>left.
     (let med1 = dset med ''doses_available'' (py_max0 left)
      in eval_in med1 (ebind (dlookup med1 ''taken_count_per_dose'') all_taken_of) (\<lambda>b.
         (let med2 = dset med1 ''all_taken'' (PBool b)
          in eval_in med2 (recalc_next_refill_for_entry today med2) Inr))))"

text \<open>The body of \<open>take_dose\<close> on its record.\<close>

definition take_dose_med :: "int \<Rightarrow> int \<Rightarrow> med \<Rightarrow> med outcome" where
  "take_dose_med today dose_index med =
     (let timing = dget med ''timing'' (PList [])
      in eval_in med (py_len timing) (\<lambda>len_timing.
         (let taken = dget med ''taken_count_per_dose'' (PList (replicate len_timing (PInt 0)));
              stored = (map_of med ''taken_count_per_dose'' \<noteq> None)
          in if 0 \<le> dose_index \<and> dose_index < int len_timing then
               eval_in med (ensure_length len_timing taken stored med) (\<lambda>(taken1, med1, stored1).
               eval_in med1 (count_dose (nat dose_index) taken1 stored1 med1) (\<lambda>med2.
               settle_dose today med2))
             else Inr med)))"

text \<open>\<open>MedStore.take_dose\<close>: both coercions stand in one \<open>try\<close>.\<close>

definition take_dose :: "int \<Rightarrow> pydict \<Rightarrow> medstore \<Rightarrow> medstore outcome" where
  "take_dose today call s =
     (let index = dget call ''index'' PNone;
          dose_index = dget call ''dose_index'' PNone
      in if index = PNone \<or> dose_index = PNone then Inr s
         else case ebind (py_int index) (\<lambda>i. ebind (py_int dose_index) (\<lambda>d. Inr (i, d))) of
                Inl e \<Rightarrow> (if caught e then Inr s else Inl (e, s))
              | Inr (index, dose_index) \<Rightarrow>
                  if 0 \<le> index \<and> index < int (length (meds s))
                  then on_med (nat index) (take_dose_med today dose_index) s
                  else Inr s)"

subsection \<open>The daily reset\<close>

text \<open>
  One turn of the loop of \<open>async_midnight_reset\<close>. Both assignments come after everything
  that can raise, so a record is reset whole or not at all.
\<close>

definition reset_med :: "med \<Rightarrow> error + med" where
  "reset_med med =
     (if truthy (dget med ''active'' (PBool True)) then
        ebind (py_gt_int (dget med ''doses_per_day'' (PInt 0)) 0) (\<lambda>due.
        if due then
          ebind (py_len (dget med ''timing'' (PList []))) (\<lambda>len_timing.
          Inr (dset (dset med ''taken_count_per_dose'' (PList (replicate len_timing (PInt 0))))
                 ''all_taken'' (PBool False)))
        else Inr med)
      else Inr med)"

fun reset_loop :: "med list \<Rightarrow> (med list) outcome" where
  "reset_loop [] = Inr []"
| "reset_loop (m # ms) =
     (case reset_med m of
        Inl e \<Rightarrow> Inl (e, m # ms)
      | Inr m' \<Rightarrow>
          (case reset_loop ms of
             Inl (e, ms') \<Rightarrow> Inl (e, m' # ms')
           | Inr ms' \<Rightarrow> Inr (m' # ms')))"

definition async_midnight_reset :: "medstore \<Rightarrow> medstore outcome" where
  "async_midnight_reset s =
     (case reset_loop (meds s) of
        Inl (e, ms) \<Rightarrow> Inl (e, s\<lparr>meds := ms\<rparr>)
      | Inr ms \<Rightarrow> Inr (s\<lparr>meds := ms\<rparr>))"

section \<open>Predicates and example inputs of the properties\<close>



text \<open>The refill example: 3 doses and one refill left, a refill of 5 doses.\<close>

definition refill_store :: medstore where
  "refill_store =
     \<lparr>meds = [[(''dose'', PInt 1), (''doses_available'', PInt 3), (''refills_available'', PInt 1)]],
      med_entities = []\<rparr>"

definition refill_call :: pydict where
  "refill_call = [(''index'', PInt 0), (''amount'', PInt 5)]"

text \<open>A refill whose amount is not a number, and an added record whose dose is not one.\<close>

definition bad_refill_call :: pydict where
  "bad_refill_call = [(''index'', PInt 0), (''amount'', PStr ''abc'')]"

definition bad_add_call :: pydict where
  "bad_add_call = [(''med_data'', PDict [(''name'', PStr ''Aspirin''), (''dose'', PStr ''abc'')])]"

text \<open>A record stored without counters, and a call that takes its first dose.\<close>

definition bare_store :: medstore where
  "bare_store =
     \<lparr>meds = [[(''name'', PStr ''Aspirin''), (''dose'', PInt 1),
               (''timing'', PList [PStr ''08:00'']), (''doses_available'', PInt 3)]],
      med_entities = []\<rparr>"

definition first_dose_call :: pydict where
  "first_dose_call = [(''index'', PInt 0), (''dose_index'', PInt 0)]"

text \<open>
  An index that a handler rejects: missing, refused by \<open>int()\<close> with a TypeError or a
  ValueError, or coerced to a position outside \<open>[0, n)\<close> for a register of \<open>n\<close> records.
\<close>

definition index_rejected :: "pydict \<Rightarrow> nat \<Rightarrow> bool" where
  "index_rejected call n =
     (let index = dget call ''index'' PNone
      in index = PNone \<or>
         (case py_int index of Inl e \<Rightarrow> caught e | Inr i \<Rightarrow> i < 0 \<or> i \<ge> int n))"

text \<open>Two records, a call whose index is the float 1.5 and one whose index is infinite.\<close>

definition pair_store :: medstore where
  "pair_store =
     \<lparr>meds = [[(''name'', PStr ''A''), (''active'', PBool True)],
              [(''name'', PStr ''B''), (''active'', PBool True)]],
      med_entities = []\<rparr>"

definition half_index_call :: pydict where
  "half_index_call = [(''index'', PFloat (Finite False 3 (- 1)))]"

definition inf_index_call :: pydict where
  "inf_index_call = [(''index'', PFloat (Infinite False))]"

text \<open>Calls with an index out of range, an index that is not a number, and no index.\<close>

definition far_index_call :: pydict where
  "far_index_call = [(''index'', PInt 5), (''dose_index'', PInt 0), (''amount'', PInt 5),
                     (''updates'', PDict [(''dose'', PInt 9)])]"

definition word_index_call :: pydict where
  "word_index_call = [(''index'', PStr ''first''), (''dose_index'', PInt 0)]"

definition no_index_call :: pydict where
  "no_index_call = [(''dose_index'', PInt 0), (''amount'', PInt 5)]"

text \<open>
  The host keeps serving calls after a handler raised: the next call finds the register
  as the previous one left it.
\<close>

fun take_doses :: "int \<Rightarrow> pydict list \<Rightarrow> medstore \<Rightarrow> medstore" where
  "take_doses today [] s = s"
| "take_doses today (call # calls) s = take_doses today calls (state_of (take_dose today call s))"

text \<open>The inventory of a record is not a negative number.\<close>

definition stock_ok :: "med \<Rightarrow> bool" where
  "stock_ok med =
     (case py_lt_int (dget med ''doses_available'' (PInt 0)) 0 of
        Inr below \<Rightarrow> \<not> below
      | Inl e \<Rightarrow> True)"

text \<open>A counter list padded with zeros to the width \<open>n\<close>.\<close>

definition padz :: "nat \<Rightarrow> pyval list \<Rightarrow> pyval list" where
  "padz n xs = xs @ replicate (n - length xs) (PInt 0)"

text \<open>
  What counting dose \<open>i\<close> of \<open>n\<close> makes of a record: without the key nothing, with a list
  of counters the padded list with counter \<open>i\<close> raised by one, up to 99999.
\<close>

definition counted :: "nat \<Rightarrow> nat \<Rightarrow> med \<Rightarrow> med \<Rightarrow> bool" where
  "counted n i med med' =
     (case map_of med ''taken_count_per_dose'' of
        None \<Rightarrow> med' = med
      | Some (PList xs) \<Rightarrow>
          (case py_add_int (padz n xs ! i) 1 of
             Inr v \<Rightarrow>
               i < length (padz n xs) \<and>
               med' = dset med ''taken_count_per_dose'' (PList ((padz n xs)[i := py_min_cap v]))
           | Inl e \<Rightarrow> False)
      | Some _ \<Rightarrow> False)"

text \<open>
  The inventory of \<open>new\<close> is that of \<open>old\<close> less one dose, but not below zero: for ints
  \<open>max(0, v - d)\<close>, and the same in float arithmetic when one of the two is a float.
\<close>

definition decremented :: "med \<Rightarrow> med \<Rightarrow> bool" where
  "decremented old new =
     (case (num_of (dget old ''doses_available'' (PInt 0)), num_of (dget old ''dose'' (PInt 1))) of
        (Some v, Some d) \<Rightarrow> dget new ''doses_available'' PNone = PInt (max 0 (v - d))
      | _ \<Rightarrow>
          (case py_sub (dget old ''doses_available'' (PInt 0)) (dget old ''dose'' (PInt 1)) of
             Inr left \<Rightarrow> dget new ''doses_available'' PNone = py_max0 left
           | Inl e \<Rightarrow> False))"

text \<open>
  A call of \<open>take_dose\<close> that passes both range checks: record \<open>i\<close>, dose \<open>k\<close> of a
  timing of length \<open>n\<close>.
\<close>

definition dose_call :: "pydict \<Rightarrow> medstore \<Rightarrow> nat \<Rightarrow> nat \<Rightarrow> nat \<Rightarrow> bool" where
  "dose_call call s i k n =
     (dget call ''index'' PNone \<noteq> PNone \<and> dget call ''dose_index'' PNone \<noteq> PNone \<and>
      py_int (dget call ''index'' PNone) = Inr (int i) \<and>
      py_int (dget call ''dose_index'' PNone) = Inr (int k) \<and>
      i < length (meds s) \<and>
      py_len (dget (meds s ! i) ''timing'' (PList [])) = Inr n \<and> k < n)"

text \<open>One dose left of a medicine taken two at a time, and two calls that take it.\<close>

definition last_dose_store :: medstore where
  "last_dose_store =
     \<lparr>meds = [[(''dose'', PInt 2), (''timing'', PList [PStr ''08:00'']),
               (''doses_available'', PInt 1), (''taken_count_per_dose'', PList [PInt 0])]],
      med_entities = []\<rparr>"

text \<open>No counter of a record is a number above 99999.\<close>

definition counter_ok :: "pyval \<Rightarrow> bool" where
  "counter_ok c = (case py_gt_int c 99999 of Inr over \<Rightarrow> \<not> over | Inl e \<Rightarrow> True)"

definition counters_ok :: "med \<Rightarrow> bool" where
  "counters_ok med =
     (case map_of med ''taken_count_per_dose'' of
        Some (PList cs) \<Rightarrow> list_all counter_ok cs
      | _ \<Rightarrow> True)"

text \<open>
  The counters of \<open>new\<close> are those of \<open>old\<close>, padded to the width \<open>n\<close>, with counter \<open>i\<close>
  raised by one and capped at 99999.
\<close>

definition slot_counted :: "nat \<Rightarrow> nat \<Rightarrow> med \<Rightarrow> med \<Rightarrow> bool" where
  "slot_counted n i old new =
     (case map_of old ''taken_count_per_dose'' of
        Some (PList xs) \<Rightarrow>
          (case num_of (padz n xs ! i) of
             Some c \<Rightarrow>
               map_of new ''taken_count_per_dose''
                 = Some (PList ((padz n xs)[i := PInt (min 99999 (c + 1))]))
           | None \<Rightarrow>
               (case py_add_int (padz n xs ! i) 1 of
                  Inr v \<Rightarrow>
                    map_of new ''taken_count_per_dose''
                      = Some (PList ((padz n xs)[i := py_min_cap v]))
                | Inl e \<Rightarrow> False))
      | _ \<Rightarrow> False)"

text \<open>Counter \<open>i\<close> of a record.\<close>

definition counter_at :: "med \<Rightarrow> nat \<Rightarrow> pyval option" where
  "counter_at med i =
     (case map_of med ''taken_count_per_dose'' of
        Some (PList cs) \<Rightarrow> (if i < length cs then Some (cs ! i) else None)
      | _ \<Rightarrow> None)"

text \<open>A dose that has been counted 99999 times.\<close>

definition full_counter_store :: medstore where
  "full_counter_store =
     \<lparr>meds = [[(''dose'', PInt 1), (''timing'', PList [PStr ''08:00'']),
               (''doses_available'', PInt 5), (''taken_count_per_dose'', PList [PInt 99999])]],
      med_entities = []\<rparr>"

text \<open>
  A record that the daily reset takes: \<open>active\<close> holds (a record without the key counts
  as active) and \<open>doses_per_day\<close> is a number above zero.
\<close>

definition is_due :: "med \<Rightarrow> bool" where
  "is_due med =
     (truthy (dget med ''active'' (PBool True)) \<and>
      (case num_of (dget med ''doses_per_day'' (PInt 0)) of None \<Rightarrow> False | Some n \<Rightarrow> 0 < n))"

text \<open>
  The fields that the reset reads have the types of the data model: for an active record
  \<open>doses_per_day\<close> is a number, and when it is above zero \<open>timing\<close> has a length.
\<close>

definition reset_typed :: "med \<Rightarrow> bool" where
  "reset_typed med =
     (if truthy (dget med ''active'' (PBool True))
      then (case num_of (dget med ''doses_per_day'' (PInt 0)) of
              None \<Rightarrow> False
            | Some n \<Rightarrow>
                (if 0 < n
                 then (case py_len (dget med ''timing'' (PList [])) of
                         Inl e \<Rightarrow> False | Inr len \<Rightarrow> True)
                 else True))
      else True)"

text \<open>An active record taken twice a day, an inactive one, and one with no daily dose.\<close>

definition evening_store :: medstore where
  "evening_store =
     \<lparr>meds = [[(''name'', PStr ''A''), (''doses_per_day'', PInt 2),
               (''timing'', PList [PStr ''08:00'', PStr ''20:00'']),
               (''taken_count_per_dose'', PList [PInt 1, PInt 3]),
               (''all_taken'', PBool True), (''active'', PBool True)],
              [(''name'', PStr ''B''), (''doses_per_day'', PInt 1),
               (''timing'', PList [PStr ''08:00'']),
               (''taken_count_per_dose'', PList [PInt 1]),
               (''all_taken'', PBool True), (''active'', PBool False)],
              [(''name'', PStr ''C''), (''doses_per_day'', PInt 0),
               (''timing'', PList []),
               (''taken_count_per_dose'', PList [PInt 4]),
               (''all_taken'', PBool True), (''active'', PBool True)]],
      med_entities = []\<rparr>"

















section \<open>Basic facts\<close>


lemma ebind_Inl [simp]: "ebind (Inl e) f = Inl e"
  by (simp add: ebind_def)

lemma ebind_Inr [simp]: "ebind (Inr x) f = f x"
  by (simp add: ebind_def)

lemma eval_in_Inl [simp]: "eval_in m (Inl e) f = Inl (e, m)"
  by (simp add: eval_in_def)

lemma eval_in_Inr [simp]: "eval_in m (Inr x) f = f x"
  by (simp add: eval_in_def)

lemma map_of_dset: "map_of (dset d k v) = (map_of d)(k \<mapsto> v)"
  by (simp add: dset_def update_conv')

lemma dget_dset: "dget (dset d k v) k' dflt = (if k' = k then v else dget d k' dflt)"
  by (simp add: dget_def map_of_dset)

lemma py_add_int_num: "num_of x = Some v \<Longrightarrow> py_add_int x n = Inr (PInt (v + n))"
  by (simp add: py_add_int_def)

lemma py_sub_num: "num_of x = Some v \<Longrightarrow> num_of y = Some d \<Longrightarrow> py_sub x y = Inr (PInt (v - d))"
  by (simp add: py_sub_def)

lemma py_gt_int_num: "num_of x = Some v \<Longrightarrow> py_gt_int x n = Inr (v > n)"
  by (simp add: py_gt_int_def)

lemma py_ge_int_num: "num_of x = Some v \<Longrightarrow> py_ge_int x n = Inr (v \<ge> n)"
  by (simp add: py_ge_int_def)

lemma py_lt_int_num: "num_of x = Some v \<Longrightarrow> py_lt_int x n = Inr (v < n)"
  by (simp add: py_lt_int_def)

lemma py_max0_PInt: "py_max0 (PInt x) = PInt (max 0 x)"
  by (cases "0 < x") (simp_all add: py_max0_def py_gt_int_def)

lemma py_min_cap_PInt: "py_min_cap (PInt x) = PInt (min 99999 x)"
  by (cases "x < 99999") (simp_all add: py_min_cap_def py_lt_int_def)

lemma float_less_not_greater: "float_less_int f n \<Longrightarrow> \<not> int_less_float n f"
  by (cases f) (auto split: if_splits)

lemma py_max0_not_negative: "py_lt_int (py_max0 x) 0 \<noteq> Inr True"
proof (cases "py_gt_int x 0 = Inr True")
  case False
  then have "py_max0 x = PInt 0"
    by (auto simp: py_max0_def split: sum.splits bool.splits)
  then show ?thesis by (simp add: py_lt_int_def)
next
  case True
  then have m: "py_max0 x = x" by (simp add: py_max0_def)
  show ?thesis
  proof (cases "num_of x")
    case (Some i)
    then show ?thesis using True by (simp add: m py_gt_int_def py_lt_int_def)
  next
    case None
    then obtain f where f: "x = PFloat f" "int_less_float 0 f"
      using True by (cases x) (simp_all add: py_gt_int_def)
    then show ?thesis
      using float_less_not_greater [of f 0] m by (auto simp: py_lt_int_def)
  qed
qed

lemma py_min_cap_not_above: "py_gt_int (py_min_cap x) 99999 \<noteq> Inr True"
proof (cases "py_lt_int x 99999 = Inr True")
  case False
  then have "py_min_cap x = PInt 99999"
    by (auto simp: py_min_cap_def split: sum.splits bool.splits)
  then show ?thesis by (simp add: py_gt_int_def)
next
  case True
  then have m: "py_min_cap x = x" by (simp add: py_min_cap_def)
  show ?thesis
  proof (cases "num_of x")
    case (Some i)
    then show ?thesis using True by (simp add: m py_gt_int_def py_lt_int_def)
  next
    case None
    then obtain f where f: "x = PFloat f" "float_less_int f 99999"
      using True by (cases x) (simp_all add: py_lt_int_def)
    then show ?thesis
      using float_less_not_greater [of f 99999] m by (auto simp: py_gt_int_def)
  qed
qed




section \<open>Outcomes of the handlers\<close>

lemma state_of_simps [simp]: "state_of (Inl (e, s)) = s" "state_of (Inr s) = s"
  by (simp_all add: state_of_def)

lemma raised_simps [simp]: "raised (Inl (e, s)) = Some e" "raised (Inr s) = None"
  by (simp_all add: raised_def)

lemma recalc_Inr:
  "recalc_next_refill_for_entry today m = Inr m' \<Longrightarrow>
   \<exists>d. m' = dset m ''next_refill'' (PStr (strftime_ymd d))"
  by (auto simp: recalc_next_refill_for_entry_def ebind_def split: sum.splits)

lemma recalc_cases:
  "(\<exists>e. recalc_next_refill_for_entry today m = Inl e) \<or>
   (\<exists>d. recalc_next_refill_for_entry today m
          = Inr (dset m ''next_refill'' (PStr (strftime_ymd d))))"
proof (cases "recalc_next_refill_for_entry today m")
  case (Inl e)
  then show ?thesis by blast
next
  case (Inr m')
  then obtain d where "m' = dset m ''next_refill'' (PStr (strftime_ymd d))"
    using recalc_Inr by blast
  with Inr show ?thesis by blast
qed

lemma recalc_last_step:
  "state_of (eval_in m (recalc_next_refill_for_entry today m) Inr) = m \<or>
   (\<exists>x. state_of (eval_in m (recalc_next_refill_for_entry today m) Inr)
          = dset m ''next_refill'' (PStr x))"
  using recalc_cases [of today m] by auto

lemma recalc_last_step_map_of:
  "k \<noteq> ''next_refill'' \<Longrightarrow>
   map_of (state_of (eval_in m (recalc_next_refill_for_entry today m) Inr)) k = map_of m k"
  using recalc_last_step [of m today] by (auto simp: map_of_dset)

lemma recalc_last_step_dget:
  "k \<noteq> ''next_refill'' \<Longrightarrow>
   dget (state_of (eval_in m (recalc_next_refill_for_entry today m) Inr)) k dflt = dget m k dflt"
  by (simp add: dget_def recalc_last_step_map_of)

lemma recalc_last_step_raised:
  "raised (eval_in m (recalc_next_refill_for_entry today m) Inr) = Some e \<Longrightarrow>
   state_of (eval_in m (recalc_next_refill_for_entry today m) Inr) = m \<and>
   recalc_next_refill_for_entry today m = Inl e"
  using recalc_cases [of today m] by auto

lemma recalc_last_step_returned:
  "raised (eval_in m (recalc_next_refill_for_entry today m) Inr) = None \<Longrightarrow>
   \<exists>d. dget (state_of (eval_in m (recalc_next_refill_for_entry today m) Inr)) ''next_refill'' PNone
         = PStr (strftime_ymd d)"
  using recalc_cases [of today m] by (auto simp: dget_dset)

lemma state_of_on_med:
  "state_of (on_med i body s) = s\<lparr>meds := (meds s)[i := state_of (body (meds s ! i))]\<rparr>"
  by (auto simp: on_med_def split: sum.splits)

lemma raised_on_med: "raised (on_med i body s) = raised (body (meds s ! i))"
  by (auto simp: on_med_def split: sum.splits)

lemma add_refill_valid:
  assumes "dget call ''index'' PNone \<noteq> PNone"
    and "py_int (dget call ''index'' PNone) = Inr i"
    and "0 \<le> i" and "i < int (length (meds s))"
  shows "add_refill today call s
         = on_med (nat i) (add_refill_med today (dget call ''amount'' (PInt 0))) s"
  using assms by (simp add: add_refill_def Let_def)

lemma add_refill_med_state:
  assumes amt: "py_int amount = Inr a"
    and av: "num_of (dget med ''doses_available'' (PInt 0)) = Some v"
    and rf: "num_of (dget med ''refills_available'' (PInt 0)) = Some r"
  shows "add_refill_med today amount med
         = (let m2 = (if r > 0
                      then dset (dset med ''doses_available'' (PInt (v + a)))
                             ''refills_available'' (PInt (r - 1))
                      else dset med ''doses_available'' (PInt (v + a)))
            in eval_in m2 (recalc_next_refill_for_entry today m2) Inr)"
  using assms
  by (simp add: add_refill_med_def py_add_int_num py_gt_int_num py_sub_num py_max0_PInt
      dget_dset Let_def)

section \<open>A refill adds the amount and uses up one refill\<close>

text \<open>
  Claim C7. For a valid index, an amount that coerces to the integer \<open>a\<close> and a record whose
  \<open>doses_available\<close> and \<open>refills_available\<close> are the numbers \<open>v\<close> and \<open>r\<close> (0 when the key
  is missing): after \<open>add_refill\<close> the record has \<open>doses_available = v + a\<close>; \<open>refills_available\<close>
  is \<open>r - 1\<close> when \<open>r > 0\<close> and is untouched otherwise; apart from \<open>next_refill\<close> no other
  field changes; the other records and the entities are unchanged. Only the estimator
  that runs afterwards can raise, and when it does not, \<open>next_refill\<close> is a rendered date.
  The witness is the refill of 5 on 3 doses and 1 refill, which leaves 8 doses and 0 refills.
\<close>

theorem add_refill_effect:
  assumes "dget call ''index'' PNone \<noteq> PNone"
    and "py_int (dget call ''index'' PNone) = Inr i"
    and "0 \<le> i" and "i < int (length (meds s))"
    and "py_int (dget call ''amount'' (PInt 0)) = Inr a"
    and "num_of (dget (meds s ! nat i) ''doses_available'' (PInt 0)) = Some v"
    and "num_of (dget (meds s ! nat i) ''refills_available'' (PInt 0)) = Some r"
    and "s' = state_of (add_refill today call s)"
    and "old = meds s ! nat i" and "new = meds s' ! nat i"
  shows "dget new ''doses_available'' PNone = PInt (v + a) \<and>
         (if r > 0 then dget new ''refills_available'' PNone = PInt (r - 1)
          else map_of new ''refills_available'' = map_of old ''refills_available'') \<and>
         (\<forall>k. k \<notin> {''doses_available'', ''refills_available'', ''next_refill''}
              \<longrightarrow> map_of new k = map_of old k) \<and>
         length (meds s') = length (meds s) \<and>
         (\<forall>j < length (meds s). j \<noteq> nat i \<longrightarrow> meds s' ! j = meds s ! j) \<and>
         med_entities s' = med_entities s \<and>
         (\<forall>e. raised (add_refill today call s) = Some e
              \<longrightarrow> recalc_next_refill_for_entry today new = Inl e) \<and>
         (raised (add_refill today call s) = None
              \<longrightarrow> (\<exists>x. dget new ''next_refill'' PNone = PStr (strftime_ymd x)))"
proof -
  define m1 where "m1 = dset old ''doses_available'' (PInt (v + a))"
  define m2 where "m2 = (if r > 0 then dset m1 ''refills_available'' (PInt (r - 1)) else m1)"
  define fin where "fin = eval_in m2 (recalc_next_refill_for_entry today m2) Inr"
  have body: "add_refill_med today (dget call ''amount'' (PInt 0)) old = fin"
    using add_refill_med_state [OF assms(5) assms(6) assms(7), of today]
    by (simp add: Let_def fin_def m2_def m1_def assms(9))
  have run: "add_refill today call s
             = on_med (nat i) (add_refill_med today (dget call ''amount'' (PInt 0))) s"
    using add_refill_valid [OF assms(1-4)] .
  have inb: "nat i < length (meds s)" using assms(3,4) by simp
  have st: "s' = s\<lparr>meds := (meds s)[nat i := state_of fin]\<rparr>"
    using body by (simp add: assms(8) run state_of_on_med assms(9))
  have new: "new = state_of fin"
    using inb by (simp add: assms(10) st)
  have rs: "raised (add_refill today call s) = raised fin"
    using body by (simp add: run raised_on_med assms(9))
  have a1: "dget new ''doses_available'' PNone = PInt (v + a)"
    by (simp add: new fin_def m2_def m1_def recalc_last_step_dget dget_dset)
  have a2: "if r > 0 then dget new ''refills_available'' PNone = PInt (r - 1)
            else map_of new ''refills_available'' = map_of old ''refills_available''"
    by (simp add: new fin_def m2_def m1_def recalc_last_step_dget recalc_last_step_map_of
        dget_dset map_of_dset)
  have a3: "\<forall>k. k \<notin> {''doses_available'', ''refills_available'', ''next_refill''}
                \<longrightarrow> map_of new k = map_of old k"
    by (simp add: new fin_def m2_def m1_def recalc_last_step_map_of map_of_dset)
  have a4: "\<forall>e. raised (add_refill today call s) = Some e
              \<longrightarrow> recalc_next_refill_for_entry today new = Inl e"
    using recalc_last_step_raised [of m2 today] by (simp add: rs new fin_def)
  have a5: "raised (add_refill today call s) = None
            \<longrightarrow> (\<exists>x. dget new ''next_refill'' PNone = PStr (strftime_ymd x))"
    using recalc_last_step_returned [of m2 today] by (simp add: rs new fin_def)
  have b1: "length (meds s') = length (meds s)"
    by (simp add: st)
  have b2: "\<forall>j < length (meds s). j \<noteq> nat i \<longrightarrow> meds s' ! j = meds s ! j"
    by (simp add: st)
  have b3: "med_entities s' = med_entities s"
    by (simp add: st)
  from a1 a2 a3 b1 b2 b3 a4 a5 show ?thesis
    by (intro conjI)
qed

theorem add_refill_effect_witness:
  "dget (meds (state_of (add_refill 739923 refill_call refill_store)) ! 0) ''doses_available'' PNone
     = PInt 8 \<and>
   dget (meds (state_of (add_refill 739923 refill_call refill_store)) ! 0) ''refills_available'' PNone
     = PInt 0 \<and>
   raised (add_refill 739923 refill_call refill_store) = None"
proof -
  have r: "raised (add_refill 739923 refill_call refill_store) = None"
    by code_simp
  have "dget (meds (state_of (add_refill 739923 refill_call refill_store)) ! nat 0)
          ''doses_available'' PNone = PInt (3 + 5) \<and>
        (if (1::int) > 0
         then dget (meds (state_of (add_refill 739923 refill_call refill_store)) ! nat 0)
                ''refills_available'' PNone = PInt (1 - 1)
         else True)"
    using add_refill_effect [of refill_call 0 refill_store 5 3 1
        "state_of (add_refill 739923 refill_call refill_store)" 739923
        "meds refill_store ! nat 0"
        "meds (state_of (add_refill 739923 refill_call refill_store)) ! nat 0"]
    by (simp add: refill_call_def refill_store_def dget_def)
  with r show ?thesis by simp
qed

section \<open>A payload that fails numeric coercion\<close>

text \<open>
  Claim C1. Only the coercion of \<open>index\<close> (and of \<open>dose_index\<close>) stands inside a \<open>try\<close>.
  With a valid index and the amount \<open>'abc'\<close>, \<open>add_refill\<close> raises ValueError; \<open>add\<close> with
  the dose \<open>'abc'\<close> raises ValueError too. Both leave the register as it was, but the
  exception reaches the caller.
\<close>

theorem coercion_failure_raises:
  "add_refill 739923 bad_refill_call refill_store = Inl (ValueError, refill_store) \<and>
   add 739923 bad_add_call refill_store = Inl (ValueError, refill_store)"
  by code_simp

lemma take_dose_valid:
  assumes "dget call ''index'' PNone \<noteq> PNone" and "dget call ''dose_index'' PNone \<noteq> PNone"
    and "py_int (dget call ''index'' PNone) = Inr i"
    and "py_int (dget call ''dose_index'' PNone) = Inr k"
    and "0 \<le> i" and "i < int (length (meds s))"
  shows "take_dose today call s = on_med (nat i) (take_dose_med today k) s"
  using assms by (simp add: take_dose_def Let_def)

section \<open>A record without counters\<close>

text \<open>
  Claim C10. The record at a valid index has no \<open>taken_count_per_dose\<close> key, its timing is a
  list, the dose index is within it, and \<open>doses_available\<close> and \<open>dose\<close> are numbers \<open>v\<close> and
  \<open>d\<close>. Then \<open>take_dose\<close> raises KeyError, and the register it leaves behind differs from
  the old one in one place: the record's \<open>doses_available\<close> is \<open>max(0, v - d)\<close>. The record
  still has no counters.
\<close>

theorem take_dose_missing_counters:
  assumes "dget call ''index'' PNone \<noteq> PNone" and "dget call ''dose_index'' PNone \<noteq> PNone"
    and "py_int (dget call ''index'' PNone) = Inr i"
    and "py_int (dget call ''dose_index'' PNone) = Inr k"
    and "0 \<le> i" and "i < int (length (meds s))"
    and "med = meds s ! nat i"
    and "map_of med ''taken_count_per_dose'' = None"
    and "map_of med ''timing'' = Some (PList ts)"
    and "0 \<le> k" and "k < int (length ts)"
    and "num_of (dget med ''doses_available'' (PInt 0)) = Some v"
    and "num_of (dget med ''dose'' (PInt 1)) = Some d"
  shows "take_dose today call s
           = Inl (KeyError,
                  s\<lparr>meds := (meds s)[nat i := dset med ''doses_available'' (PInt (max 0 (v - d)))]\<rparr>) \<and>
         map_of (dset med ''doses_available'' (PInt (max 0 (v - d)))) ''taken_count_per_dose'' = None"
proof -
  have len: "nat k < length ts" using assms(10,11) by simp
  have bump: "bump_taken (PList (replicate (length ts) (PInt 0))) (nat k)
              = Inr (PList ((replicate (length ts) (PInt 0))[nat k := PInt 1]))"
    using len by (simp add: py_add_int_def py_min_cap_PInt)
  have nokey: "map_of (dset med ''doses_available'' (PInt (max 0 (v - d)))) ''taken_count_per_dose''
               = None"
    using assms(8) by (simp add: map_of_dset)
  have body: "take_dose_med today k med
              = Inl (KeyError, dset med ''doses_available'' (PInt (max 0 (v - d))))"
    using assms(8-13) bump nokey
    by (simp add: take_dose_med_def ensure_length_def count_dose_def settle_dose_def dget_def
        dlookup_def py_sub_num py_max0_PInt Let_def)
  show ?thesis
    using body nokey take_dose_valid [OF assms(1-6), of today]
    by (simp add: on_med_def assms(7))
qed

theorem take_dose_missing_counters_witness:
  "take_dose 739923 first_dose_call bare_store
     = Inl (KeyError,
            \<lparr>meds = [[(''name'', PStr ''Aspirin''), (''dose'', PInt 1),
                      (''timing'', PList [PStr ''08:00'']), (''doses_available'', PInt 2)]],
             med_entities = []\<rparr>)"
  using take_dose_missing_counters [of first_dose_call 0 0 bare_store "meds bare_store ! nat 0"
      "[PStr ''08:00'']" 3 1 739923]
  by (simp add: first_dose_call_def bare_store_def dget_def dset_def)

section \<open>A rejected index changes nothing\<close>

lemma delete_rejected: "index_rejected call (length (meds s)) \<Longrightarrow> delete domain call s = Inr s"
  by (auto simp: index_rejected_def delete_def Let_def split: sum.splits)

lemma update_rejected:
  "index_rejected call (length (meds s)) \<Longrightarrow> update dict_update today call s = Inr s"
  by (auto simp: index_rejected_def update_def Let_def split: sum.splits)

lemma toggle_active_rejected:
  "index_rejected call (length (meds s)) \<Longrightarrow> toggle_active call s = Inr s"
  by (auto simp: index_rejected_def toggle_active_def Let_def split: sum.splits)

lemma add_refill_rejected:
  "index_rejected call (length (meds s)) \<Longrightarrow> add_refill today call s = Inr s"
  by (auto simp: index_rejected_def add_refill_def Let_def split: sum.splits)

lemma take_dose_rejected_state:
  "index_rejected call (length (meds s)) \<Longrightarrow> state_of (take_dose today call s) = s"
  by (auto simp: index_rejected_def take_dose_def Let_def ebind_def split: sum.splits)

lemma py_int_errors: "py_int v = Inl e \<Longrightarrow> caught e \<or> e = OverflowError"
proof (cases v)
  case (PFloat f)
  then show "py_int v = Inl e \<Longrightarrow> caught e \<or> e = OverflowError"
    by (cases f) (auto simp: caught_def)
qed (auto simp: caught_def split: option.splits)

lemma take_dose_rejected:
  assumes "index_rejected call (length (meds s))"
    and "py_int (dget call ''dose_index'' PNone) \<noteq> Inl OverflowError"
  shows "take_dose today call s = Inr s"
proof (cases "py_int (dget call ''dose_index'' PNone)")
  case (Inl e)
  then have "caught e" using py_int_errors [OF Inl] assms(2) by auto
  then show ?thesis
    using assms(1) Inl
    by (auto simp: index_rejected_def take_dose_def Let_def ebind_def split: sum.splits)
next
  case (Inr k)
  then show ?thesis
    using assms(1)
    by (auto simp: index_rejected_def take_dose_def Let_def ebind_def split: sum.splits)
qed

text \<open>
  Claim C4 as stated fails for an index that is not an integer. The handlers take as
  index whatever \<open>int()\<close> accepts, and \<open>int()\<close> cuts a float to its integral part: with
  the float 1.5 as index, \<open>delete\<close> removes the record at position 1. An infinite index
  makes \<open>int()\<close> raise OverflowError, which no handler catches.
\<close>

theorem float_index_counterexample:
  "delete ''medstore'' half_index_call pair_store
     = Inr \<lparr>meds = [[(''name'', PStr ''A''), (''active'', PBool True)]], med_entities = []\<rparr> \<and>
   toggle_active inf_index_call pair_store = Inl (OverflowError, pair_store)"
  by (simp add: delete_def toggle_active_def half_index_call_def inf_index_call_def
      pair_store_def dget_def signed_def caught_def sync_med_entities_def Let_def)

text \<open>
  Claim C4, amended. When the index of the payload is missing, is refused by \<open>int()\<close>
  with a TypeError or a ValueError, or is coerced to a position outside \<open>[0, len(meds))\<close>,
  each of delete, update, toggle_active and add_refill returns normally with the
  register, entities included, exactly as it was; take_dose leaves the register as it
  was too, and returns normally when the coercion of its dose index does not overflow.
\<close>

theorem rejected_index_is_noop:
  assumes "index_rejected call (length (meds s))"
  shows "delete domain call s = Inr s \<and>
         update dict_update today call s = Inr s \<and>
         toggle_active call s = Inr s \<and>
         add_refill today call s = Inr s \<and>
         state_of (take_dose today call s) = s \<and>
         (py_int (dget call ''dose_index'' PNone) \<noteq> Inl OverflowError
            \<longrightarrow> take_dose today call s = Inr s)"
proof -
  have "py_int (dget call ''dose_index'' PNone) \<noteq> Inl OverflowError
          \<longrightarrow> take_dose today call s = Inr s"
    using take_dose_rejected [OF assms] by blast
  with delete_rejected [OF assms, of domain] update_rejected [OF assms, of dict_update today]
    toggle_active_rejected [OF assms] add_refill_rejected [OF assms, of today]
    take_dose_rejected_state [OF assms, of today]
  show ?thesis by (intro conjI)
qed

theorem rejected_index_is_noop_witness:
  "index_rejected far_index_call (length (meds refill_store)) \<and>
   delete ''medstore'' far_index_call refill_store = Inr refill_store \<and>
   (\<forall>dict_update. update dict_update 739923 far_index_call refill_store = Inr refill_store) \<and>
   toggle_active far_index_call refill_store = Inr refill_store \<and>
   add_refill 739923 far_index_call refill_store = Inr refill_store \<and>
   take_dose 739923 far_index_call refill_store = Inr refill_store \<and>
   index_rejected word_index_call (length (meds refill_store)) \<and>
   take_dose 739923 word_index_call refill_store = Inr refill_store \<and>
   index_rejected no_index_call (length (meds refill_store)) \<and>
   add_refill 739923 no_index_call refill_store = Inr refill_store"
proof -
  have a: "index_rejected far_index_call (length (meds refill_store))"
    by (simp add: index_rejected_def far_index_call_def refill_store_def dget_def)
  have a': "py_int (dget far_index_call ''dose_index'' PNone) \<noteq> Inl OverflowError"
    by (simp add: far_index_call_def dget_def)
  have b: "index_rejected word_index_call (length (meds refill_store))"
    by code_simp
  have b': "py_int (dget word_index_call ''dose_index'' PNone) \<noteq> Inl OverflowError"
    by (simp add: word_index_call_def dget_def)
  have c: "index_rejected no_index_call (length (meds refill_store))"
    by (simp add: index_rejected_def no_index_call_def refill_store_def dget_def)
  have u: "\<forall>dict_update. update dict_update 739923 far_index_call refill_store = Inr refill_store"
    using rejected_index_is_noop [OF a] by blast
  show ?thesis
    using a a' b b' c u
      rejected_index_is_noop [OF a, of "''medstore''" undefined 739923]
      rejected_index_is_noop [OF b, of "''medstore''" undefined 739923]
      rejected_index_is_noop [OF c, of "''medstore''" undefined 739923]
    by simp
qed

section \<open>Taking a dose\<close>

lemma ensure_length_Inr:
  assumes "ensure_length n taken stored med = Inr (t1, m1, st1)"
  shows "(\<exists>len. py_len taken = Inr len \<and> n \<le> len \<and> t1 = taken \<and> m1 = med \<and> st1 = stored) \<or>
         (\<exists>xs. taken = PList xs \<and> length xs < n \<and> t1 = PList (padz n xs) \<and>
               m1 = dset med ''taken_count_per_dose'' t1 \<and> st1)"
  using assms
  by (cases taken) (auto simp: ensure_length_def padz_def split: if_splits)

lemma ensure_length_Inl:
  "ensure_length n taken stored med = Inl e \<Longrightarrow> True"
  by simp

lemma bump_taken_Inr:
  assumes "bump_taken t i = Inr t2"
  shows "\<exists>xs v. t = PList xs \<and> i < length xs \<and> py_add_int (xs ! i) 1 = Inr v \<and>
               t2 = PList (xs[i := py_min_cap v])"
  using assms
  by (cases t) (auto simp: ebind_def split: if_splits sum.splits)

lemma count_dose_Inr:
  assumes "count_dose i taken stored med = Inr m2"
  shows "\<exists>xs v. taken = PList xs \<and> i < length xs \<and> py_add_int (xs ! i) 1 = Inr v \<and>
          m2 = (if stored
                then dset med ''taken_count_per_dose'' (PList (xs[i := py_min_cap v]))
                else med)"
proof -
  from assms obtain t2 where b: "bump_taken taken i = Inr t2"
    and m2: "m2 = (if stored then dset med ''taken_count_per_dose'' t2 else med)"
    by (cases "bump_taken taken i") (auto simp: count_dose_def)
  from bump_taken_Inr [OF b] m2 show ?thesis by auto
qed

lemma dset_dset_same: "dset (dset d k v) k w = dset d k w"
  by (simp add: dset_def)

lemma padz_length: "length (padz n xs) = max (length xs) n"
  by (simp add: padz_def)

lemma padz_id: "n \<le> length xs \<Longrightarrow> padz n xs = xs"
  by (simp add: padz_def)

lemma take_dose_med_cases [case_names untouched padded settled]:
  obtains
    (untouched) "state_of (take_dose_med today k med) = med"
      and "raised (take_dose_med today k med) \<noteq> None \<or>
           (\<exists>n. py_len (dget med ''timing'' (PList [])) = Inr n \<and> \<not> (0 \<le> k \<and> k < int n))"
  | (padded) xs n where "map_of med ''taken_count_per_dose'' = Some (PList xs)"
      and "py_len (dget med ''timing'' (PList [])) = Inr n"
      and "state_of (take_dose_med today k med)
             = dset med ''taken_count_per_dose'' (PList (padz n xs))"
      and "raised (take_dose_med today k med) \<noteq> None"
  | (settled) n m2 where "py_len (dget med ''timing'' (PList [])) = Inr n"
      and "0 \<le> k" and "k < int n"
      and "take_dose_med today k med = settle_dose today m2"
      and "counted n (nat k) med m2"
proof (cases "py_len (dget med ''timing'' (PList []))")
  case (Inl e)
  then have "take_dose_med today k med = Inl (e, med)"
    by (simp add: take_dose_med_def)
  then show ?thesis using untouched by simp
next
  case (Inr n)
  show ?thesis
  proof (cases "0 \<le> k \<and> k < int n")
    case False
    then have "take_dose_med today k med = Inr med"
      using Inr by (auto simp add: take_dose_med_def Let_def)
    then show ?thesis using untouched Inr False by simp
  next
    case True
    define taken where "taken = dget med ''taken_count_per_dose'' (PList (replicate n (PInt 0)))"
    define stored where "stored = (map_of med ''taken_count_per_dose'' \<noteq> None)"
    have unf: "take_dose_med today k med
               = eval_in med (ensure_length n taken stored med) (\<lambda>(taken1, med1, stored1).
                 eval_in med1 (count_dose (nat k) taken1 stored1 med1) (\<lambda>med2.
                 settle_dose today med2))"
      using Inr True by (simp add: take_dose_med_def Let_def taken_def stored_def)
    show ?thesis
    proof (cases "ensure_length n taken stored med")
      case (Inl e)
      then have "take_dose_med today k med = Inl (e, med)" by (simp add: unf)
      then show ?thesis using untouched by simp
    next
      case el: (Inr r)
      obtain t1 m1 st1 where r: "r = (t1, m1, st1)" by (cases r) auto
      have unf2: "take_dose_med today k med
                  = eval_in m1 (count_dose (nat k) t1 st1 m1) (settle_dose today)"
        by (simp add: unf el r)
      from ensure_length_Inr [OF el [unfolded r]]
      consider (asis) len where "py_len taken = Inr len" "n \<le> len" "t1 = taken" "m1 = med"
          "st1 = stored"
        | (pad) xs where "taken = PList xs" "length xs < n" "t1 = PList (padz n xs)"
          "m1 = dset med ''taken_count_per_dose'' t1" "st1"
        by blast
      then show ?thesis
      proof cases
        case asis
        show ?thesis
        proof (cases "count_dose (nat k) t1 st1 m1")
          case (Inl e)
          then have "take_dose_med today k med = Inl (e, med)"
            by (simp add: unf2 asis)
          then show ?thesis using untouched by simp
        next
          case cd: (Inr m2)
          from count_dose_Inr [OF cd] obtain xs c where
            x: "t1 = PList xs" "nat k < length xs" "py_add_int (xs ! nat k) 1 = Inr c"
            "m2 = (if st1
                   then dset m1 ''taken_count_per_dose'' (PList (xs[nat k := py_min_cap c]))
                   else m1)"
            by blast
          have tk: "taken = PList xs" using asis(3) x(1) by simp
          have len: "n \<le> length xs" using asis(1,2) by (simp add: tk)
          have "counted n (nat k) med m2"
          proof (cases "map_of med ''taken_count_per_dose''")
            case None
            then show ?thesis using x(4) asis by (simp add: counted_def stored_def)
          next
            case (Some v)
            then have "v = PList xs" using asis(3) x(1) by (simp add: taken_def dget_def)
            then show ?thesis
              using Some x asis len by (simp add: counted_def stored_def padz_id)
          qed
          moreover have "take_dose_med today k med = settle_dose today m2"
            by (simp add: unf2 cd)
          ultimately show ?thesis using settled Inr True by blast
        qed
      next
        case pad
        have key: "map_of med ''taken_count_per_dose'' = Some (PList xs)"
        proof (cases "map_of med ''taken_count_per_dose''")
          case None
          then have "taken = PList (replicate n (PInt 0))" by (simp add: taken_def dget_def)
          then show ?thesis using pad(1,2) by simp
        next
          case (Some v)
          then show ?thesis using pad(1) by (simp add: taken_def dget_def)
        qed
        show ?thesis
        proof (cases "count_dose (nat k) t1 st1 m1")
          case (Inl e)
          then have "take_dose_med today k med = Inl (e, m1)"
            by (simp add: unf2)
          then show ?thesis using padded [OF key Inr] pad by simp
        next
          case cd: (Inr m2)
          from count_dose_Inr [OF cd] obtain ys c where
            x: "t1 = PList ys" "nat k < length ys" "py_add_int (ys ! nat k) 1 = Inr c"
            "m2 = (if st1
                   then dset m1 ''taken_count_per_dose'' (PList (ys[nat k := py_min_cap c]))
                   else m1)"
            by blast
          have ys: "ys = padz n xs" using pad(3) x(1) by simp
          have "counted n (nat k) med m2"
            using key x pad ys by (simp add: counted_def dset_dset_same)
          moreover have "take_dose_med today k med = settle_dose today m2"
            by (simp add: unf2 cd)
          ultimately show ?thesis using settled Inr True by blast
        qed
      qed
    qed
  qed
qed


lemma counted_keeps:
  "counted n i med m2 \<Longrightarrow> k \<noteq> ''taken_count_per_dose'' \<Longrightarrow> map_of m2 k = map_of med k"
  by (auto simp: counted_def map_of_dset split: option.splits pyval.splits sum.splits)

lemma state_of_eval_in:
  "state_of (eval_in m r f) = (case r of Inl e \<Rightarrow> m | Inr x \<Rightarrow> state_of (f x))"
  by (cases r) simp_all

lemma raised_eval_in:
  "raised (eval_in m r f) = (case r of Inl e \<Rightarrow> Some e | Inr x \<Rightarrow> raised (f x))"
  by (cases r) simp_all

lemma settle_dose_cases [case_names no_stock no_flag estimate]:
  obtains
    (no_stock) e where "settle_dose today m = Inl (e, m)"
  | (no_flag) left e where
      "py_sub (dget m ''doses_available'' (PInt 0)) (dget m ''dose'' (PInt 1)) = Inr left"
      and "settle_dose today m = Inl (e, dset m ''doses_available'' (py_max0 left))"
  | (estimate) left cs b where
      "py_sub (dget m ''doses_available'' (PInt 0)) (dget m ''dose'' (PInt 1)) = Inr left"
      and "map_of m ''taken_count_per_dose'' = Some cs"
      and "all_taken_of cs = Inr b"
      and "settle_dose today m
           = eval_in (dset (dset m ''doses_available'' (py_max0 left)) ''all_taken'' (PBool b))
               (recalc_next_refill_for_entry today
                  (dset (dset m ''doses_available'' (py_max0 left)) ''all_taken'' (PBool b)))
               Inr"
proof (cases "py_sub (dget m ''doses_available'' (PInt 0)) (dget m ''dose'' (PInt 1))")
  case (Inl e)
  then show ?thesis using no_stock by (simp add: settle_dose_def)
next
  case (Inr left)
  define m1 where "m1 = dset m ''doses_available'' (py_max0 left)"
  have unf: "settle_dose today m
             = eval_in m1 (ebind (dlookup m1 ''taken_count_per_dose'') all_taken_of) (\<lambda>b.
                 eval_in (dset m1 ''all_taken'' (PBool b))
                   (recalc_next_refill_for_entry today (dset m1 ''all_taken'' (PBool b))) Inr)"
    using Inr by (simp add: settle_dose_def Let_def m1_def)
  show ?thesis
  proof (cases "ebind (dlookup m1 ''taken_count_per_dose'') all_taken_of")
    case (Inl e)
    then have "settle_dose today m = Inl (e, m1)" by (simp add: unf)
    then show ?thesis using no_flag Inr by (simp add: m1_def)
  next
    case fl: (Inr b)
    then obtain cs where cs: "map_of m1 ''taken_count_per_dose'' = Some cs" "all_taken_of cs = Inr b"
      by (auto simp: dlookup_def ebind_def split: option.splits sum.splits)
    have "map_of m ''taken_count_per_dose'' = Some cs"
      using cs(1) by (simp add: m1_def map_of_dset)
    moreover have "settle_dose today m
           = eval_in (dset m1 ''all_taken'' (PBool b))
               (recalc_next_refill_for_entry today (dset m1 ''all_taken'' (PBool b))) Inr"
      by (simp add: unf fl)
    ultimately show ?thesis using estimate Inr cs(2) by (simp add: m1_def)
  qed
qed

lemma settle_dose_keeps:
  assumes "k \<notin> {''doses_available'', ''all_taken'', ''next_refill''}"
  shows "map_of (state_of (settle_dose today m)) k = map_of m k"
proof (cases rule: settle_dose_cases [of today m])
  case (no_stock e)
  then show ?thesis by simp
next
  case (no_flag left e)
  then show ?thesis using assms by (simp add: map_of_dset)
next
  case (estimate left cs b)
  then show ?thesis using assms by (simp add: recalc_last_step_map_of map_of_dset)
qed

lemma settle_dose_stock:
  "map_of (state_of (settle_dose today m)) ''doses_available'' = map_of m ''doses_available'' \<or>
   (\<exists>left. py_sub (dget m ''doses_available'' (PInt 0)) (dget m ''dose'' (PInt 1)) = Inr left \<and>
          map_of (state_of (settle_dose today m)) ''doses_available'' = Some (py_max0 left))"
proof (cases rule: settle_dose_cases [of today m])
  case (no_stock e)
  then show ?thesis by simp
next
  case (no_flag left e)
  then show ?thesis by (simp add: map_of_dset)
next
  case (estimate left cs b)
  then show ?thesis by (simp add: recalc_last_step_map_of map_of_dset)
qed

lemma decrementedI:
  assumes "py_sub (dget old ''doses_available'' (PInt 0)) (dget old ''dose'' (PInt 1)) = Inr left"
    and "dget new ''doses_available'' PNone = py_max0 left"
  shows "decremented old new"
proof (cases "num_of (dget old ''doses_available'' (PInt 0))")
  case None
  then show ?thesis using assms by (simp add: decremented_def)
next
  case v: (Some v)
  show ?thesis
  proof (cases "num_of (dget old ''dose'' (PInt 1))")
    case None
    then show ?thesis using assms v by (simp add: decremented_def)
  next
    case (Some d)
    then have "left = PInt (v - d)" using py_sub_num [OF v Some] assms(1) by simp
    then show ?thesis using assms(2) v Some by (simp add: decremented_def py_max0_PInt)
  qed
qed

lemma decremented_cong:
  assumes "decremented m2 new"
    and "dget m2 ''doses_available'' (PInt 0) = dget med ''doses_available'' (PInt 0)"
    and "dget m2 ''dose'' (PInt 1) = dget med ''dose'' (PInt 1)"
  shows "decremented med new"
  using assms(1) unfolding decremented_def assms(2) assms(3) .

lemma settle_dose_returned:
  assumes "raised (settle_dose today m) = None"
  shows "decremented m (state_of (settle_dose today m)) \<and>
         map_of m ''taken_count_per_dose'' \<noteq> None"
proof (cases rule: settle_dose_cases [of today m])
  case (no_stock e)
  then show ?thesis using assms by simp
next
  case (no_flag left e)
  then show ?thesis using assms by simp
next
  case (estimate left cs b)
  have "dget (state_of (settle_dose today m)) ''doses_available'' PNone = py_max0 left"
    by (simp add: estimate(4) recalc_last_step_dget dget_dset)
  from decrementedI [OF estimate(1) this] estimate(2) show ?thesis by simp
qed

lemma stock_ok_cong:
  "map_of m' ''doses_available'' = map_of m ''doses_available'' \<Longrightarrow> stock_ok m' = stock_ok m"
  by (simp add: stock_ok_def dget_def)

lemma stock_ok_max0: "map_of m ''doses_available'' = Some (py_max0 left) \<Longrightarrow> stock_ok m"
  using py_max0_not_negative [of left]
  by (cases "py_lt_int (py_max0 left) 0") (auto simp: stock_ok_def dget_def)

lemma take_dose_med_stock_ok:
  assumes "stock_ok med"
  shows "stock_ok (state_of (take_dose_med today k med))"
proof (cases rule: take_dose_med_cases [of today k med])
  case untouched
  then show ?thesis using assms by simp
next
  case (padded xs n)
  then show ?thesis
    using assms stock_ok_cong [of "dset med ''taken_count_per_dose'' (PList (padz n xs))" med]
    by (simp add: map_of_dset)
next
  case (settled n m2)
  have same: "map_of m2 ''doses_available'' = map_of med ''doses_available''"
    using counted_keeps [OF settled(5)] by simp
  from settle_dose_stock [of today m2]
  show ?thesis
  proof
    assume "map_of (state_of (settle_dose today m2)) ''doses_available''
            = map_of m2 ''doses_available''"
    then show ?thesis
      using assms same settled(4) stock_ok_cong [of "state_of (settle_dose today m2)" med]
      by simp
  next
    assume "\<exists>left. py_sub (dget m2 ''doses_available'' (PInt 0)) (dget m2 ''dose'' (PInt 1))
                    = Inr left \<and>
                  map_of (state_of (settle_dose today m2)) ''doses_available''
                    = Some (py_max0 left)"
    then show ?thesis using settled(4) stock_ok_max0 by auto
  qed
qed

lemma take_dose_med_decremented:
  assumes "py_len (dget med ''timing'' (PList [])) = Inr n" and "0 \<le> k" and "k < int n"
    and "raised (take_dose_med today k med) = None"
  shows "decremented med (state_of (take_dose_med today k med))"
proof (cases rule: take_dose_med_cases [of today k med])
  case untouched
  then show ?thesis using assms by auto
next
  case (padded xs n)
  then show ?thesis using assms by simp
next
  case (settled n' m2)
  have "decremented m2 (state_of (settle_dose today m2))"
    using settle_dose_returned [of today m2] assms(4) settled(4) by simp
  moreover have "dget m2 ''doses_available'' (PInt 0) = dget med ''doses_available'' (PInt 0)"
    "dget m2 ''dose'' (PInt 1) = dget med ''dose'' (PInt 1)"
    using counted_keeps [OF settled(5)] by (simp_all add: dget_def)
  ultimately show ?thesis using settled(4) decremented_cong by simp
qed

lemma take_dose_shape [case_names skipped ran]:
  obtains (skipped) "state_of (take_dose today call s) = s"
  | (ran) i k where "i < length (meds s)"
      and "take_dose today call s = on_med i (take_dose_med today k) s"
proof (cases "dget call ''index'' PNone = PNone \<or> dget call ''dose_index'' PNone = PNone")
  case True
  then have "take_dose today call s = Inr s" by (auto simp: take_dose_def Let_def)
  then show ?thesis using skipped by simp
next
  case present: False
  show ?thesis
  proof (cases "py_int (dget call ''index'' PNone)")
    case (Inl e)
    then have "state_of (take_dose today call s) = s"
      using present by (simp add: take_dose_def Let_def)
    then show ?thesis using skipped by simp
  next
    case i: (Inr i)
    show ?thesis
    proof (cases "py_int (dget call ''dose_index'' PNone)")
      case (Inl e)
      then have "state_of (take_dose today call s) = s"
        using present i by (simp add: take_dose_def Let_def)
      then show ?thesis using skipped by simp
    next
      case k: (Inr k)
      show ?thesis
      proof (cases "0 \<le> i \<and> i < int (length (meds s))")
        case True
        then have "take_dose today call s = on_med (nat i) (take_dose_med today k) s"
          using present i k by (simp add: take_dose_def Let_def)
        moreover have "nat i < length (meds s)" using True by linarith
        ultimately show ?thesis using ran by blast
      next
        case False
        then have "take_dose today call s = Inr s"
          using present i k by (auto simp: take_dose_def Let_def)
        then show ?thesis using skipped by simp
      qed
    qed
  qed
qed

lemma on_med_invariant:
  assumes "\<forall>m \<in> set (meds s). P m" and "i < length (meds s)"
    and "\<And>m. P m \<Longrightarrow> P (state_of (body m))"
  shows "\<forall>m \<in> set (meds (state_of (on_med i body s))). P m"
proof -
  have "P (state_of (body (meds s ! i)))" using assms by simp
  then show ?thesis
    using assms(1) set_update_subset_insert [of "meds s" i "state_of (body (meds s ! i))"]
    by (auto simp: state_of_on_med)
qed

lemma take_dose_invariant:
  assumes "\<forall>m \<in> set (meds s). P m"
    and "\<And>k m. P m \<Longrightarrow> P (state_of (take_dose_med today k m))"
  shows "\<forall>m \<in> set (meds (state_of (take_dose today call s))). P m"
proof (cases rule: take_dose_shape [of today call s])
  case skipped
  then show ?thesis using assms(1) by simp
next
  case (ran i k)
  from on_med_invariant [of s P i "take_dose_med today k", OF assms(1) ran(1) assms(2)]
  show ?thesis by (simp add: ran(2))
qed

lemma take_doses_invariant:
  assumes "\<forall>m \<in> set (meds s). P m"
    and "\<And>k m. P m \<Longrightarrow> P (state_of (take_dose_med today k m))"
  shows "\<forall>m \<in> set (meds (take_doses today calls s)). P m"
  using assms(1)
proof (induction calls arbitrary: s)
  case Nil
  then show ?case by simp
next
  case (Cons call calls)
  from take_dose_invariant [OF Cons.prems assms(2)]
  have "\<forall>m \<in> set (meds (state_of (take_dose today call s))). P m" by blast
  from Cons.IH [OF this] show ?case by simp
qed

lemma dose_call_run:
  assumes "dose_call call s i k n"
  shows "take_dose today call s = on_med i (take_dose_med today (int k)) s"
  using assms take_dose_valid [of call "int i" "int k" s today]
  by (simp add: dose_call_def)

text \<open>
  Claim C5. A call of \<open>take_dose\<close> that passes both range checks and returns leaves
  \<open>doses_available = max(0, doses_available - dose)\<close> in its record. Whatever the calls
  are, and whether they return or raise, an inventory that is not negative never becomes
  negative: the property holds of every record after any sequence of calls.
\<close>

theorem take_dose_never_negative:
  assumes "\<forall>m \<in> set (meds s). stock_ok m"
  shows "(\<forall>m \<in> set (meds (take_doses today calls s)). stock_ok m) \<and>
         (\<forall>call i k n.
            dose_call call s i k n \<and> raised (take_dose today call s) = None \<longrightarrow>
            decremented (meds s ! i) (meds (state_of (take_dose today call s)) ! i))"
proof
  show "\<forall>m \<in> set (meds (take_doses today calls s)). stock_ok m"
    using take_doses_invariant [of s stock_ok today calls] assms take_dose_med_stock_ok
    by blast
next
  show "\<forall>call i k n.
          dose_call call s i k n \<and> raised (take_dose today call s) = None \<longrightarrow>
          decremented (meds s ! i) (meds (state_of (take_dose today call s)) ! i)"
  proof (intro allI impI)
    fix call i k n
    assume h: "dose_call call s i k n \<and> raised (take_dose today call s) = None"
    then have run: "take_dose today call s = on_med i (take_dose_med today (int k)) s"
      using dose_call_run by blast
    have i: "i < length (meds s)" and n: "py_len (dget (meds s ! i) ''timing'' (PList [])) = Inr n"
      and k: "k < n"
      using h by (simp_all add: dose_call_def)
    have r: "raised (take_dose_med today (int k) (meds s ! i)) = None"
      using h by (simp add: run raised_on_med)
    have "decremented (meds s ! i) (state_of (take_dose_med today (int k) (meds s ! i)))"
      using take_dose_med_decremented [OF n _ _ r] k by simp
    then show "decremented (meds s ! i) (meds (state_of (take_dose today call s)) ! i)"
      using i by (simp add: run state_of_on_med)
  qed
qed

theorem take_dose_never_negative_witness:
  "list_all stock_ok (meds last_dose_store) \<and>
   dose_call first_dose_call last_dose_store 0 0 1 \<and>
   raised (take_dose 739923 first_dose_call last_dose_store) = None \<and>
   decremented (meds last_dose_store ! 0)
     (meds (state_of (take_dose 739923 first_dose_call last_dose_store)) ! 0) \<and>
   dget (meds (state_of (take_dose 739923 first_dose_call last_dose_store)) ! 0)
     ''doses_available'' PNone = PInt 0 \<and>
   list_all stock_ok (meds (take_doses 739923 [first_dose_call, first_dose_call] last_dose_store))"
proof -
  have a: "\<forall>m \<in> set (meds last_dose_store). stock_ok m"
    by (simp add: last_dose_store_def stock_ok_def py_lt_int_def dget_def)
  have b: "dose_call first_dose_call last_dose_store 0 0 1"
    by (simp add: dose_call_def first_dose_call_def last_dose_store_def dget_def)
  have c: "raised (take_dose 739923 first_dose_call last_dose_store) = None"
    by code_simp
  have d: "dget (meds (state_of (take_dose 739923 first_dose_call last_dose_store)) ! 0)
             ''doses_available'' PNone = PInt 0"
    by code_simp
  show ?thesis
    using a b c d
      take_dose_never_negative [OF a, of 739923 "[first_dose_call, first_dose_call]"]
    unfolding list_all_iff by blast
qed

section \<open>The counters stay below the cap\<close>

lemma counter_ok_zero: "counter_ok (PInt 0)"
  by (simp add: counter_ok_def py_gt_int_def)

lemma counter_ok_cap: "counter_ok (py_min_cap v)"
  using py_min_cap_not_above [of v]
  by (cases "py_gt_int (py_min_cap v) 99999") (auto simp: counter_ok_def)

lemma padz_counters:
  assumes "list_all counter_ok xs"
  shows "list_all counter_ok (padz n xs)"
  using assms by (auto simp: padz_def list_all_iff counter_ok_zero)

lemma update_counters:
  assumes "list_all counter_ok ys"
  shows "list_all counter_ok (ys[i := py_min_cap v])"
proof -
  have "set (ys[i := py_min_cap v]) \<subseteq> insert (py_min_cap v) (set ys)"
    by (rule set_update_subset_insert)
  then show ?thesis using assms counter_ok_cap [of v] by (auto simp: list_all_iff)
qed

lemma counted_counters_ok:
  assumes "counted n i med m2" and "counters_ok med"
  shows "counters_ok m2"
proof (cases "map_of med ''taken_count_per_dose''")
  case None
  then show ?thesis using assms by (simp add: counted_def)
next
  case (Some v)
  then obtain xs c where x: "v = PList xs" "py_add_int (padz n xs ! i) 1 = Inr c"
    "m2 = dset med ''taken_count_per_dose'' (PList ((padz n xs)[i := py_min_cap c]))"
    using assms(1) by (auto simp: counted_def split: pyval.splits sum.splits)
  have "list_all counter_ok xs"
    using assms(2) Some x(1) by (simp add: counters_ok_def)
  from update_counters [OF padz_counters [OF this]]
  show ?thesis by (simp add: x(3) counters_ok_def map_of_dset)
qed

lemma counters_ok_cong:
  "map_of m' ''taken_count_per_dose'' = map_of m ''taken_count_per_dose'' \<Longrightarrow>
   counters_ok m' = counters_ok m"
  by (simp add: counters_ok_def)

lemma take_dose_med_counters_ok:
  assumes "counters_ok med"
  shows "counters_ok (state_of (take_dose_med today k med))"
proof (cases rule: take_dose_med_cases [of today k med])
  case untouched
  then show ?thesis using assms by simp
next
  case (padded xs n)
  have "list_all counter_ok xs"
    using assms padded(1) by (simp add: counters_ok_def)
  from padz_counters [OF this] show ?thesis
    by (simp add: padded(3) counters_ok_def map_of_dset)
next
  case (settled n m2)
  have "counters_ok m2" using counted_counters_ok [OF settled(5) assms] .
  moreover have "map_of (state_of (settle_dose today m2)) ''taken_count_per_dose''
                 = map_of m2 ''taken_count_per_dose''"
    by (simp add: settle_dose_keeps)
  ultimately show ?thesis
    using counters_ok_cong [of "state_of (settle_dose today m2)" m2] settled(4) by simp
qed

lemma take_dose_med_slot_counted:
  assumes "py_len (dget med ''timing'' (PList [])) = Inr n" and "0 \<le> k" and "k < int n"
    and "raised (take_dose_med today k med) = None"
  shows "slot_counted n (nat k) med (state_of (take_dose_med today k med))"
proof (cases rule: take_dose_med_cases [of today k med])
  case untouched
  then show ?thesis using assms by auto
next
  case (padded xs n)
  then show ?thesis using assms by simp
next
  case (settled n' m2)
  have n': "n' = n" using settled(1) assms(1) by simp
  have key: "map_of m2 ''taken_count_per_dose'' \<noteq> None"
    using settle_dose_returned [of today m2] assms(4) settled(4) by simp
  have keep: "map_of (state_of (take_dose_med today k med)) ''taken_count_per_dose''
              = map_of m2 ''taken_count_per_dose''"
    by (simp add: settled(4) settle_dose_keeps)
  show ?thesis
  proof (cases "map_of med ''taken_count_per_dose''")
    case None
    then have "m2 = med" using settled(5) by (simp add: counted_def)
    then show ?thesis using key None by simp
  next
    case (Some v)
    then obtain xs c where x: "v = PList xs" "py_add_int (padz n xs ! nat k) 1 = Inr c"
      "m2 = dset med ''taken_count_per_dose'' (PList ((padz n xs)[nat k := py_min_cap c]))"
      using settled(5) n' by (auto simp: counted_def split: pyval.splits sum.splits)
    show ?thesis
    proof (cases "num_of (padz n xs ! nat k)")
      case None
      then show ?thesis using Some x by (simp add: slot_counted_def keep map_of_dset)
    next
      case (Some i)
      then have "c = PInt (i + 1)" using py_add_int_num [OF Some, of 1] x(2) by simp
      then show ?thesis
        using \<open>map_of med ''taken_count_per_dose'' = Some v\<close> x Some
        by (simp add: slot_counted_def keep map_of_dset py_min_cap_PInt)
    qed
  qed
qed

lemma slot_counted_capped:
  assumes "slot_counted n i old new" and "i < n"
  shows "\<exists>c. counter_at new i = Some c \<and> counter_ok c"
proof -
  from assms(1) obtain xs c where
    x: "map_of new ''taken_count_per_dose'' = Some (PList ((padz n xs)[i := py_min_cap c]))"
    by (auto simp: slot_counted_def py_min_cap_PInt [symmetric]
        split: option.splits pyval.splits sum.splits)
  have "i < length (padz n xs)" using assms(2) by (simp add: padz_length)
  then show ?thesis using counter_ok_cap [of c] by (simp add: counter_at_def x)
qed

text \<open>
  Claim C6. A call of \<open>take_dose\<close> that passes both range checks and returns leaves, in
  slot \<open>k\<close> of the counters padded with zeros, \<open>min(99999, old + 1)\<close>, which is at most
  99999. Whatever the calls are, and whether they return or raise, counters that are all
  at most 99999 stay so: the property holds of every record after any sequence of calls.
\<close>

theorem take_dose_counter_capped:
  assumes "\<forall>m \<in> set (meds s). counters_ok m"
  shows "(\<forall>m \<in> set (meds (take_doses today calls s)). counters_ok m) \<and>
         (\<forall>call i k n.
            dose_call call s i k n \<and> raised (take_dose today call s) = None \<longrightarrow>
            slot_counted n k (meds s ! i) (meds (state_of (take_dose today call s)) ! i) \<and>
            (\<exists>c. counter_at (meds (state_of (take_dose today call s)) ! i) k = Some c \<and>
                 counter_ok c))"
proof
  show "\<forall>m \<in> set (meds (take_doses today calls s)). counters_ok m"
    using take_doses_invariant [of s counters_ok today calls] assms take_dose_med_counters_ok
    by blast
next
  show "\<forall>call i k n.
          dose_call call s i k n \<and> raised (take_dose today call s) = None \<longrightarrow>
          slot_counted n k (meds s ! i) (meds (state_of (take_dose today call s)) ! i) \<and>
          (\<exists>c. counter_at (meds (state_of (take_dose today call s)) ! i) k = Some c \<and>
               counter_ok c)"
  proof (intro allI impI)
    fix call i k n
    assume h: "dose_call call s i k n \<and> raised (take_dose today call s) = None"
    then have run: "take_dose today call s = on_med i (take_dose_med today (int k)) s"
      using dose_call_run by blast
    have i: "i < length (meds s)" and n: "py_len (dget (meds s ! i) ''timing'' (PList [])) = Inr n"
      and k: "k < n"
      using h by (simp_all add: dose_call_def)
    have r: "raised (take_dose_med today (int k) (meds s ! i)) = None"
      using h by (simp add: run raised_on_med)
    have "slot_counted n (nat (int k)) (meds s ! i)
            (state_of (take_dose_med today (int k) (meds s ! i)))"
      using take_dose_med_slot_counted [OF n _ _ r] k by simp
    then have sc: "slot_counted n k (meds s ! i) (meds (state_of (take_dose today call s)) ! i)"
      using i by (simp add: run state_of_on_med)
    from sc slot_counted_capped [OF sc k]
    show "slot_counted n k (meds s ! i) (meds (state_of (take_dose today call s)) ! i) \<and>
          (\<exists>c. counter_at (meds (state_of (take_dose today call s)) ! i) k = Some c \<and>
               counter_ok c)"
      by blast
  qed
qed

lemma full_counter_take:
  "take_dose 739923 first_dose_call full_counter_store
     = Inr \<lparr>meds = [[(''dose'', PInt 1), (''timing'', PList [PStr ''08:00'']),
                      (''doses_available'', PInt 4),
                      (''taken_count_per_dose'', PList [PInt 99999]),
                      (''all_taken'', PBool True), (''next_refill'', PStr ''2026-11-07'')]],
             med_entities = []\<rparr>"
proof -
  have "strftime_ymd 739927 = ''2026-11-07''" by code_simp
  then show ?thesis
    by (simp add: take_dose_def first_dose_call_def full_counter_store_def dget_def dset_def
        on_med_def take_dose_med_def ensure_length_def count_dose_def settle_dose_def
        py_add_int_def py_sub_def py_min_cap_PInt py_max0_PInt dlookup_def py_ge_int_def Let_def
        recalc_next_refill_for_entry_def days_left_of_def add_days_def MAXORDINAL_def)
qed

theorem take_dose_counter_capped_witness:
  "list_all counters_ok (meds full_counter_store) \<and>
   dose_call first_dose_call full_counter_store 0 0 1 \<and>
   raised (take_dose 739923 first_dose_call full_counter_store) = None \<and>
   slot_counted 1 0 (meds full_counter_store ! 0)
     (meds (state_of (take_dose 739923 first_dose_call full_counter_store)) ! 0) \<and>
   counter_at (meds (state_of (take_dose 739923 first_dose_call full_counter_store)) ! 0) 0
     = Some (PInt 99999) \<and>
   list_all counters_ok
     (meds (take_doses 739923 [first_dose_call, first_dose_call] full_counter_store))"
proof -
  have a: "\<forall>m \<in> set (meds full_counter_store). counters_ok m"
    by (simp add: full_counter_store_def counters_ok_def counter_ok_def py_gt_int_def)
  have b: "dose_call first_dose_call full_counter_store 0 0 1"
    by (simp add: dose_call_def first_dose_call_def full_counter_store_def dget_def)
  have c: "raised (take_dose 739923 first_dose_call full_counter_store) = None"
    by (simp add: full_counter_take)
  have d: "counter_at (meds (state_of (take_dose 739923 first_dose_call full_counter_store)) ! 0) 0
           = Some (PInt 99999)"
    by (simp add: full_counter_take counter_at_def)
  note capped = take_dose_counter_capped [OF a, of 739923 "[first_dose_call, first_dose_call]"]
  have e: "list_all counters_ok
             (meds (take_doses 739923 [first_dose_call, first_dose_call] full_counter_store))"
    using capped [THEN conjunct1] by (simp only: list_all_iff)
  have f: "slot_counted 1 0 (meds full_counter_store ! 0)
             (meds (state_of (take_dose 739923 first_dose_call full_counter_store)) ! 0)"
    by (rule capped [THEN conjunct2, rule_format, OF conjI [OF b c], THEN conjunct1])
  have g: "list_all counters_ok (meds full_counter_store)"
    using a by (simp only: list_all_iff)
  from g b c f d e show ?thesis by (intro conjI)
qed

section \<open>The daily reset\<close>

lemma reset_med_not_due:
  "reset_typed med \<Longrightarrow> \<not> is_due med \<Longrightarrow> reset_med med = Inr m' \<Longrightarrow> m' = med"
  by (auto simp: is_due_def reset_typed_def reset_med_def py_gt_int_def
      split: if_splits option.splits)

lemma reset_med_due:
  assumes "is_due med" and "reset_med med = Inr m'"
  shows "\<exists>n. py_len (dget med ''timing'' (PList [])) = Inr n \<and>
             m' = dset (dset med ''taken_count_per_dose'' (PList (replicate n (PInt 0))))
                    ''all_taken'' (PBool False)"
proof -
  from assms(1) obtain d where d: "truthy (dget med ''active'' (PBool True))"
    "num_of (dget med ''doses_per_day'' (PInt 0)) = Some d" "0 < d"
    by (auto simp: is_due_def split: option.splits)
  show ?thesis
  proof (cases "py_len (dget med ''timing'' (PList []))")
    case (Inl e)
    then show ?thesis using assms(2) d by (simp add: reset_med_def py_gt_int_def)
  next
    case (Inr n)
    then show ?thesis using assms(2) d by (simp add: reset_med_def py_gt_int_def)
  qed
qed

lemma reset_med_typed: "reset_typed med \<Longrightarrow> \<exists>m'. reset_med med = Inr m'"
  by (auto simp: reset_typed_def reset_med_def py_gt_int_def split: if_splits option.splits sum.splits)

lemma reset_loop_Inr:
  "reset_loop ms = Inr ms' \<Longrightarrow>
   length ms' = length ms \<and> (\<forall>j < length ms. reset_med (ms ! j) = Inr (ms' ! j))"
proof (induction ms arbitrary: ms')
  case Nil
  then show ?case by simp
next
  case (Cons m ms)
  from Cons.prems obtain m1 ms1 where s: "reset_med m = Inr m1" "reset_loop ms = Inr ms1"
    "ms' = m1 # ms1"
    by (auto split: sum.splits)
  from Cons.IH [OF s(2)] have ih: "length ms1 = length ms"
    "\<forall>j < length ms. reset_med (ms ! j) = Inr (ms1 ! j)"
    by simp_all
  show ?case
  proof (intro conjI allI impI)
    show "length ms' = length (m # ms)" using ih(1) s(3) by simp
  next
    fix j
    assume "j < length (m # ms)"
    then show "reset_med ((m # ms) ! j) = Inr (ms' ! j)"
      using s ih(2) by (cases j) simp_all
  qed
qed

lemma reset_loop_typed:
  "\<forall>m \<in> set ms. reset_typed m \<Longrightarrow> \<exists>ms'. reset_loop ms = Inr ms'"
proof (induction ms)
  case Nil
  then show ?case by simp
next
  case (Cons m ms)
  then obtain m1 ms1 where "reset_med m = Inr m1" "reset_loop ms = Inr ms1"
    using reset_med_typed [of m] by auto
  then show ?case by simp
qed

text \<open>
  Claim C8. When the fields that the reset reads have the types of the data model, the
  reset returns, and afterwards every record with \<open>active\<close> true and \<open>doses_per_day > 0\<close>
  has \<open>taken_count_per_dose\<close> equal to as many zeros as \<open>timing\<close> has entries and \<open>all_taken\<close>
  false, its other fields being as before; every other record, the inactive ones and
  those with no daily dose, is exactly as before.
\<close>

theorem midnight_reset_effect:
  assumes "\<forall>m \<in> set (meds s). reset_typed m"
    and "s' = state_of (async_midnight_reset s)"
  shows "raised (async_midnight_reset s) = None \<and>
         med_entities s' = med_entities s \<and>
         length (meds s') = length (meds s) \<and>
         (\<forall>j < length (meds s).
            (is_due (meds s ! j) \<longrightarrow>
               (\<exists>n. py_len (dget (meds s ! j) ''timing'' (PList [])) = Inr n \<and>
                    dget (meds s' ! j) ''taken_count_per_dose'' PNone
                      = PList (replicate n (PInt 0)) \<and>
                    dget (meds s' ! j) ''all_taken'' PNone = PBool False \<and>
                    (\<forall>k. k \<notin> {''taken_count_per_dose'', ''all_taken''}
                         \<longrightarrow> map_of (meds s' ! j) k = map_of (meds s ! j) k))) \<and>
            (\<not> is_due (meds s ! j) \<longrightarrow> meds s' ! j = meds s ! j))"
proof -
  from reset_loop_typed [OF assms(1)] obtain ms' where loop: "reset_loop (meds s) = Inr ms'"
    by blast
  then have run: "async_midnight_reset s = Inr (s\<lparr>meds := ms'\<rparr>)"
    by (simp add: async_midnight_reset_def)
  have s': "s' = s\<lparr>meds := ms'\<rparr>" by (simp add: assms(2) run)
  from reset_loop_Inr [OF loop] have len: "length ms' = length (meds s)"
    and each: "\<forall>j < length (meds s). reset_med (meds s ! j) = Inr (ms' ! j)"
    by simp_all
  have per: "\<forall>j < length (meds s).
            (is_due (meds s ! j) \<longrightarrow>
               (\<exists>n. py_len (dget (meds s ! j) ''timing'' (PList [])) = Inr n \<and>
                    dget (ms' ! j) ''taken_count_per_dose'' PNone
                      = PList (replicate n (PInt 0)) \<and>
                    dget (ms' ! j) ''all_taken'' PNone = PBool False \<and>
                    (\<forall>k. k \<notin> {''taken_count_per_dose'', ''all_taken''}
                         \<longrightarrow> map_of (ms' ! j) k = map_of (meds s ! j) k))) \<and>
            (\<not> is_due (meds s ! j) \<longrightarrow> ms' ! j = meds s ! j)"
  proof (intro allI impI conjI)
    fix j
    assume j: "j < length (meds s)" and due: "is_due (meds s ! j)"
    from each j have r: "reset_med (meds s ! j) = Inr (ms' ! j)" by simp
    from reset_med_due [OF due r] obtain n where
      n: "py_len (dget (meds s ! j) ''timing'' (PList [])) = Inr n"
      "ms' ! j = dset (dset (meds s ! j) ''taken_count_per_dose'' (PList (replicate n (PInt 0))))
                   ''all_taken'' (PBool False)"
      by blast
    show "\<exists>n. py_len (dget (meds s ! j) ''timing'' (PList [])) = Inr n \<and>
              dget (ms' ! j) ''taken_count_per_dose'' PNone = PList (replicate n (PInt 0)) \<and>
              dget (ms' ! j) ''all_taken'' PNone = PBool False \<and>
              (\<forall>k. k \<notin> {''taken_count_per_dose'', ''all_taken''}
                   \<longrightarrow> map_of (ms' ! j) k = map_of (meds s ! j) k)"
      using n by (simp add: dget_dset map_of_dset)
  next
    fix j
    assume j: "j < length (meds s)" and due: "\<not> is_due (meds s ! j)"
    from each j have r: "reset_med (meds s ! j) = Inr (ms' ! j)" by simp
    from assms(1) j have "reset_typed (meds s ! j)" by simp
    from reset_med_not_due [OF this due r] show "ms' ! j = meds s ! j" .
  qed
  show ?thesis
    using per len by (simp add: s' run)
qed

theorem midnight_reset_effect_witness:
  "list_all reset_typed (meds evening_store) \<and>
   is_due (meds evening_store ! 0) \<and>
   raised (async_midnight_reset evening_store) = None \<and>
   dget (meds (state_of (async_midnight_reset evening_store)) ! 0) ''taken_count_per_dose'' PNone
     = PList [PInt 0, PInt 0] \<and>
   dget (meds (state_of (async_midnight_reset evening_store)) ! 0) ''all_taken'' PNone
     = PBool False \<and>
   meds (state_of (async_midnight_reset evening_store)) ! 1 = meds evening_store ! 1 \<and>
   meds (state_of (async_midnight_reset evening_store)) ! 2 = meds evening_store ! 2"
proof -
  have a: "\<forall>m \<in> set (meds evening_store). reset_typed m"
    by (simp add: evening_store_def reset_typed_def dget_def)
  have due0: "is_due (meds evening_store ! 0)"
    by (simp add: evening_store_def is_due_def dget_def)
  have due1: "\<not> is_due (meds evening_store ! 1)"
    by (simp add: evening_store_def is_due_def dget_def)
  have due2: "\<not> is_due (meds evening_store ! 2)"
    by (simp add: evening_store_def is_due_def dget_def)
  have len: "length (meds evening_store) = 3"
    by (simp add: evening_store_def)
  have tm: "py_len (dget (meds evening_store ! 0) ''timing'' (PList [])) = Inr 2"
    by (simp add: evening_store_def dget_def)
  note eff = midnight_reset_effect [OF a refl]
  have r: "raised (async_midnight_reset evening_store) = None"
    by (rule eff [THEN conjunct1])
  note per = eff [THEN conjunct2, THEN conjunct2, THEN conjunct2, rule_format]
  have p0: "dget (meds (state_of (async_midnight_reset evening_store)) ! 0)
              ''taken_count_per_dose'' PNone = PList [PInt 0, PInt 0] \<and>
            dget (meds (state_of (async_midnight_reset evening_store)) ! 0) ''all_taken'' PNone
              = PBool False"
    using per [of 0, THEN conjunct1, rule_format, OF _ due0] tm len
    by (auto simp: numeral_2_eq_2)
  have p1: "meds (state_of (async_midnight_reset evening_store)) ! 1 = meds evening_store ! 1"
    using per [of 1, THEN conjunct2, rule_format, OF _ due1] len by simp
  have p2: "meds (state_of (async_midnight_reset evening_store)) ! 2 = meds evening_store ! 2"
    using per [of 2, THEN conjunct2, rule_format, OF _ due2] len by simp
  have g: "list_all reset_typed (meds evening_store)"
    using a by (simp only: list_all_iff)
  from g due0 r p0 p1 p2 show ?thesis by (intro conjI) simp_all
qed

section \<open>The estimated refill date\<close>

subsection \<open>The date of a day number\<close>



lemma upto_months: "[1..(12::int)] = [1,2,3,4,5,6,7,8,9,10,11,12]"
  by (simp add: upto.simps)













subsection \<open>The estimate\<close>






section \<open>The width of the counter list\<close>
















end
